theory Spec2Isabelle
  imports Main
begin

section \<open>JavaScript \<open>Date\<close> values and the host's time zone\<close>

text \<open>
  A JavaScript \<open>Date\<close> holds a time value: an integral number of milliseconds since
  1970-01-01T00:00Z, or NaN (an invalid date). The views read the host's time zone through
  \<open>setHours\<close>, \<open>getDate\<close>, \<open>setDate\<close>, \<open>getDay\<close> and \<open>toDateString\<close> (local time)
  and mix it with \<open>toISOString\<close> and \<open>new Date("YYYY-MM-DD")\<close> (UTC).

  The host's zone is a parameter. As in ECMAScript it is two functions: \<open>offsetAt z t\<close> is
  the offset of local time from UTC in force at the instant \<open>t\<close> (\<open>LocalTZA(t, true)\<close>), and
  \<open>offsetOfLocal z l\<close> is the offset with which the local time \<open>l\<close> is read
  (\<open>LocalTZA(l, false)\<close>; for a local time that a clock change skips or repeats it is the
  offset before the change). Both are in milliseconds. A zone without clock changes has
  one offset (\<open>fixedZone\<close>); a zone with summer time has two (\<open>summerZone\<close>), and the
  local days on which its clocks change last 23 or 25 hours.

  Calendar days are numbered from 1970-01-01, which is day 0 and a Thursday. A date text
  (the \<open>YYYY-MM-DD\<close> key, the result of \<open>toDateString\<close>) is represented by the number of
  the day it names; the two notations are one-to-one on four-digit years.
\<close>

definition msPerDay :: int where
  "msPerDay = 1000 * 60 * 60 * 24"

datatype Date = Invalid | Valid int

datatype DateString = InvalidDateString | DayString int

datatype error = RangeError

datatype zone = Zone (offsetAt: "int \<Rightarrow> int") (offsetOfLocal: "int \<Rightarrow> int")

definition LocalTime :: "zone \<Rightarrow> int \<Rightarrow> int" where
  \<comment> \<open>ECMAScript \<open>LocalTime(t)\<close>: the local time, as a time value, at the instant \<open>t\<close>\<close>
  "LocalTime z t = t + offsetAt z t"

definition UTC :: "zone \<Rightarrow> int \<Rightarrow> int" where
  \<comment> \<open>ECMAScript \<open>UTC(t)\<close>: the instant at which the local time is \<open>l\<close>\<close>
  "UTC z l = l - offsetOfLocal z l"

definition localDay :: "zone \<Rightarrow> int \<Rightarrow> int" where
  \<comment> \<open>the local calendar day that contains the time value \<open>t\<close>\<close>
  "localDay z t = LocalTime z t div msPerDay"

definition localMidnight :: "zone \<Rightarrow> int \<Rightarrow> int" where
  \<comment> \<open>the time value of 00:00 local time on day \<open>d\<close>\<close>
  "localMidnight z d = UTC z (d * msPerDay)"

definition setHours0 :: "zone \<Rightarrow> int \<Rightarrow> int" where
  \<comment> \<open>\<open>d.setHours(0, 0, 0, 0)\<close> on a valid date\<close>
  "setHours0 z t = localMidnight z (localDay z t)"

definition setHours0D :: "zone \<Rightarrow> Date \<Rightarrow> Date" where
  \<comment> \<open>\<open>d.setHours(0, 0, 0, 0)\<close>; an invalid date stays invalid\<close>
  "setHours0D z d = (case d of Invalid \<Rightarrow> Invalid | Valid t \<Rightarrow> Valid (setHours0 z t))"

definition addDays :: "zone \<Rightarrow> int \<Rightarrow> int \<Rightarrow> int" where
  \<comment> \<open>\<open>d.setDate(d.getDate() + n)\<close>: the same local time of day, \<open>n\<close> local days later\<close>
  "addDays z t n = UTC z (LocalTime z t + n * msPerDay)"

definition getDay :: "zone \<Rightarrow> int \<Rightarrow> int" where
  \<comment> \<open>local day of the week, 0 for Sunday\<close>
  "getDay z t = (localDay z t + 4) mod 7"

definition toDateString :: "zone \<Rightarrow> Date \<Rightarrow> DateString" where
  "toDateString z d =
     (case d of Invalid \<Rightarrow> InvalidDateString | Valid t \<Rightarrow> DayString (localDay z t))"

definition parseDateString :: "zone \<Rightarrow> DateString \<Rightarrow> Date" where
  \<comment> \<open>\<open>new Date(s)\<close> for a text made by \<open>toDateString\<close>: local midnight of that day\<close>
  "parseDateString z s =
     (case s of InvalidDateString \<Rightarrow> Invalid | DayString d \<Rightarrow> Valid (localMidnight z d))"

definition toKey :: "Date \<Rightarrow> error + int" where
  \<comment> \<open>\<open>d.toISOString().slice(0, 10)\<close>: the UTC day; \<open>toISOString\<close> throws on an invalid date\<close>
  "toKey d = (case d of Invalid \<Rightarrow> Inl RangeError | Valid t \<Rightarrow> Inr (t div msPerDay))"

definition parseKey :: "int \<Rightarrow> Date" where
  \<comment> \<open>\<open>new Date(k)\<close> for a date-only ISO text: midnight UTC of that day\<close>
  "parseKey k = Valid (k * msPerDay)"

definition dateGe :: "Date \<Rightarrow> int \<Rightarrow> bool" where
  \<comment> \<open>\<open>d >= s\<close>; every comparison with NaN is false\<close>
  "dateGe d s = (case d of Invalid \<Rightarrow> False | Valid t \<Rightarrow> s \<le> t)"

definition dateLe :: "Date \<Rightarrow> int \<Rightarrow> bool" where
  "dateLe d s = (case d of Invalid \<Rightarrow> False | Valid t \<Rightarrow> t \<le> s)"

subsection \<open>Zones\<close>

text \<open>
  A zone that keeps one offset all year, and a zone that keeps \<open>standard\<close> except in the
  given periods of summer time, each from one instant up to another, where it keeps
  \<open>summer\<close>. A local time is read with the summer offset when it lies from the first
  local time after the clocks went forward up to the end of the hour that is repeated when
  they go back. \<open>Europe_London\<close> and \<open>America_New_York\<close> are these two zones with their
  summer time of 2023 and 2024 (zone tables are data of the host, not of the program;
  other years are left out).
\<close>

definition fixedZone :: "int \<Rightarrow> zone" where
  "fixedZone tz = Zone (\<lambda>t. tz) (\<lambda>l. tz)"

definition inSummer :: "(int \<times> int) list \<Rightarrow> int \<Rightarrow> bool" where
  "inSummer periods t = list_ex (\<lambda>(s, e). s \<le> t \<and> t < e) periods"

definition summerZone :: "int \<Rightarrow> int \<Rightarrow> (int \<times> int) list \<Rightarrow> zone" where
  "summerZone standard summer periods =
     Zone (\<lambda>t. if inSummer periods t then summer else standard)
          (\<lambda>l. if inSummer periods (l - summer) then summer else standard)"

definition Europe_London :: zone where
  \<comment> \<open>GMT, and BST (one hour ahead) from 2023-03-26T01:00Z to 2023-10-29T01:00Z and from
      2024-03-31T01:00Z to 2024-10-27T01:00Z\<close>
  "Europe_London =
     summerZone 0 3600000 [(1679792400000, 1698541200000), (1711846800000, 1729990800000)]"

definition America_New_York :: zone where
  \<comment> \<open>EST (five hours behind), and EDT (four hours behind) from 2023-03-12T07:00Z to
      2023-11-05T06:00Z and from 2024-03-10T07:00Z to 2024-11-03T06:00Z\<close>
  "America_New_York =
     summerZone (- 18000000) (- 14400000)
       [(1678604400000, 1699164000000), (1710054000000, 1730613600000)]"

subsection \<open>Sorting dates, newest first\<close>

text \<open>
  \<open>dates.sort((a, b) => b.getTime() - a.getTime())\<close>. The comparator's result is NaN when
  either date is invalid, and \<open>sort\<close> reads NaN as 0 (neither before the other). When the
  comparator is consistent on the elements, ECMAScript fixes the result: the elements in
  order, equal ones in their input order. That is insertion of each element, left to
  right, behind every element it is not strictly before. The comparator is consistent
  when no date is invalid, and also when the valid dates all have one time value (then
  every comparison gives 0). Otherwise (an invalid date among valid dates of different
  times) the order of the result is left to the engine: it is the parameter \<open>engineSort\<close>.
\<close>

definition comesBefore :: "Date \<Rightarrow> Date \<Rightarrow> bool" where
  \<comment> \<open>\<open>b.getTime() - a.getTime() < 0\<close>\<close>
  "comesBefore a b =
     (case a of Invalid \<Rightarrow> False
      | Valid x \<Rightarrow> (case b of Invalid \<Rightarrow> False | Valid y \<Rightarrow> y - x < 0))"

fun insertDate :: "Date \<Rightarrow> Date list \<Rightarrow> Date list" where
  "insertDate a [] = [a]"
| "insertDate a (b # bs) = (if comesBefore a b then a # b # bs else b # insertDate a bs)"

definition isValid :: "Date \<Rightarrow> bool" where
  "isValid d = (case d of Invalid \<Rightarrow> False | Valid t \<Rightarrow> True)"

definition consistentOrder :: "Date list \<Rightarrow> bool" where
  \<comment> \<open>the comparator is a consistent comparator for the elements of \<open>ds\<close>\<close>
  "consistentOrder ds =
     (let valid = filter isValid ds
      in length valid = length ds \<or> length (remdups valid) \<le> 1)"

definition stableSort :: "Date list \<Rightarrow> Date list" where
  \<comment> \<open>the result that the standard fixes under a consistent comparator\<close>
  "stableSort ds = foldl (\<lambda>sorted d. insertDate d sorted) [] ds"

definition sortDates :: "(Date list \<Rightarrow> Date list) \<Rightarrow> Date list \<Rightarrow> Date list" where
  "sortDates engineSort ds = (if consistentOrder ds then stableSort ds else engineSort ds)"

subsection \<open>Sets and objects keep insertion order\<close>

definition setFromList :: "'a list \<Rightarrow> 'a list" where
  \<comment> \<open>\<open>Array.from(new Set(xs))\<close>: the first occurrence of each element, in order\<close>
  "setFromList xs = foldl (\<lambda>s x. if x \<in> set s then s else s @ [x]) [] xs"

fun objGet :: "(int \<times> nat) list \<Rightarrow> int \<Rightarrow> nat option" where
  \<comment> \<open>\<open>obj[key]\<close>; \<open>None\<close> is \<open>undefined\<close>\<close>
  "objGet [] k = None"
| "objGet ((k', v) # kvs) k = (if k' = k then Some v else objGet kvs k)"

fun objSet :: "(int \<times> nat) list \<Rightarrow> int \<Rightarrow> nat \<Rightarrow> (int \<times> nat) list" where
  \<comment> \<open>\<open>obj[key] = v\<close>: an existing key keeps its place, a new one goes last\<close>
  "objSet [] k v = [(k, v)]"
| "objSet ((k', v') # kvs) k v = (if k' = k then (k, v) # kvs else (k', v') # objSet kvs k v)"

definition orZero :: "nat option \<Rightarrow> nat" where
  \<comment> \<open>\<open>x || 0\<close>\<close>
  "orZero x = (case x of None \<Rightarrow> 0 | Some v \<Rightarrow> v)"

section \<open>Double-precision arithmetic of the completion rate\<close>

text \<open>
  \<open>Math.round((completed / total) * 100)\<close> divides and multiplies in IEEE 754 binary64,
  each operation rounded to the nearest double, ties to the even mantissa. A non-negative
  double below \<open>2^53\<close> is \<open>m / 2^k\<close> with a mantissa \<open>m \<le> 2^53\<close>; it is the pair
  \<open>(m, k)\<close>. Here \<open>completed \<le> total\<close>, so the quotient is at most 1 and the product at
  most 100, far from overflow and from the subnormal range.
\<close>

definition roundHalfEven :: "nat \<Rightarrow> nat \<Rightarrow> nat" where
  \<comment> \<open>\<open>n / d\<close> rounded to the nearest integer, a tie to the even one\<close>
  "roundHalfEven n d =
     (let q = n div d; r = n mod d
      in if 2 * r < d then q else if d < 2 * r then q + 1 else if even q then q else q + 1)"

function scaleUp :: "nat \<Rightarrow> nat \<Rightarrow> nat \<Rightarrow> nat" where
  \<comment> \<open>the least \<open>k\<close> from \<open>k\<close> on with \<open>2^52 \<le> c * 2^k / t\<close>\<close>
  "scaleUp c t k = (if c = 0 \<or> 2 ^ 52 * t \<le> c * 2 ^ k then k else scaleUp c t (Suc k))"
  by pat_completeness auto
termination
proof (relation "measure (\<lambda>(c, t, k). 2 ^ 52 * t - c * 2 ^ k)")
  show "wf (measure (\<lambda>(c, t, k). 2 ^ 52 * t - c * 2 ^ k))" by simp
next
  fix c t k :: nat
  assume a: "\<not> (c = 0 \<or> 2 ^ 52 * t \<le> c * 2 ^ k)"
  then have "0 < c * 2 ^ k" and "c * 2 ^ k < 2 ^ 52 * t" by simp_all
  moreover have "c * 2 ^ Suc k = 2 * (c * 2 ^ k)" by simp
  ultimately have "2 ^ 52 * t - c * 2 ^ Suc k < 2 ^ 52 * t - c * 2 ^ k" by linarith
  then show "((c, t, Suc k), (c, t, k)) \<in> measure (\<lambda>(c, t, k). 2 ^ 52 * t - c * 2 ^ k)"
    by simp
qed

declare scaleUp.simps [simp del]

function scaleDown :: "nat \<Rightarrow> nat \<Rightarrow> nat" where
  \<comment> \<open>the least \<open>j\<close> from \<open>j\<close> on with \<open>p / 2^j < 2^53\<close>\<close>
  "scaleDown p j = (if p div 2 ^ j < 2 ^ 53 then j else scaleDown p (Suc j))"
  by pat_completeness auto
termination
proof (relation "measure (\<lambda>(p, j). p div 2 ^ j)")
  show "wf (measure (\<lambda>(p, j). p div 2 ^ j))" by simp
next
  fix p j :: nat
  assume a: "\<not> p div 2 ^ j < 2 ^ 53"
  then have pos: "0 < p div 2 ^ j" by simp
  have "p div 2 ^ Suc j = (p div 2 ^ j) div 2"
    by (simp only: power_Suc2 div_mult2_eq)
  with pos show "((p, Suc j), (p, j)) \<in> measure (\<lambda>(p, j). p div 2 ^ j)"
    by simp
qed

declare scaleDown.simps [simp del]

definition fdiv :: "nat \<Rightarrow> nat \<Rightarrow> nat \<times> nat" where
  \<comment> \<open>the double \<open>c / t\<close>, for \<open>0 < t\<close> and \<open>c / t < 2^53\<close>\<close>
  "fdiv c t = (let k = scaleUp c t 0 in (roundHalfEven (c * 2 ^ k) t, k))"

definition fmul :: "nat \<times> nat \<Rightarrow> nat \<Rightarrow> nat \<times> nat" where
  \<comment> \<open>the double \<open>x * n\<close> for a double \<open>x = m / 2^k\<close> and an integer \<open>n\<close>, for \<open>x * n < 2^53\<close>\<close>
  "fmul x n =
     (let p = fst x * n; j = scaleDown p 0 in (roundHalfEven p (2 ^ j), snd x - j))"

definition Math_round :: "nat \<times> nat \<Rightarrow> nat" where
  \<comment> \<open>the nearest integer, a tie upwards: \<open>\<lfloor>m / 2^k + 1/2\<rfloor>\<close>\<close>
  "Math_round x = (2 * fst x + 2 ^ snd x) div 2 ^ Suc (snd x)"

definition completionRateOf :: "nat \<Rightarrow> nat \<Rightarrow> nat" where
  \<comment> \<open>\<open>total > 0 ? Math.round((completed / total) * 100) : 0\<close>\<close>
  "completionRateOf totalN completed =
     (if totalN > 0 then Math_round (fmul (fdiv completed totalN) 100) else 0)"

section \<open>The question form and the table it writes\<close>

text \<open>
  \<open>handleSubmit\<close> of the question form (\<open>src/unnamed/part_004\<close>) is the only place of the
  views that inserts into or updates \<open>coding_questions\<close>. A row is a map from column names
  to values. The table and its trigger are those of the migrations
  (\<open>src/unnamed/part_000\<close>): an insert fills the columns the payload leaves out with their
  defaults (no default means \<open>NULL\<close>), an update sets the payload's columns of the rows
  with the given \<open>id\<close>, and the trigger \<open>update_coding_questions_updated_at\<close> then sets
  \<open>updated_at\<close>. \<open>accepted\<close> tells whether the database takes the write; on an error
  the form only shows a message.
\<close>

datatype sqlvalue = Null | Text string | Timestamp int

type_synonym row = "string \<Rightarrow> sqlvalue option"

datatype formData = FormData string string string string string string string

fun payloadOf :: "formData \<Rightarrow> string option \<Rightarrow> (string \<times> sqlvalue) list" where
  \<comment> \<open>\<open>{ ...formData, user_id: user?.id, solution_code: formData.solution_code || null }\<close>;
      an undefined \<open>user_id\<close> is left out of the request\<close>
  "payloadOf (FormData title description language topic difficulty status solution_code) user_id =
     [(''title'', Text title), (''description'', Text description),
      (''language'', Text language), (''topic'', Text topic),
      (''difficulty'', Text difficulty), (''status'', Text status),
      (''solution_code'', if solution_code = [] then Null else Text solution_code)]
     @ (case user_id of None \<Rightarrow> [] | Some u \<Rightarrow> [(''user_id'', Text u)])"

definition setColumns :: "row \<Rightarrow> (string \<times> sqlvalue) list \<Rightarrow> row" where
  "setColumns r payload = foldl (\<lambda>r' (c, v). r'(c \<mapsto> v)) r payload"

definition defaultRow :: "string \<Rightarrow> int \<Rightarrow> row" where
  \<comment> \<open>the columns of \<open>coding_questions\<close> with their defaults\<close>
  "defaultRow newId now =
     [''id'' \<mapsto> Text newId, ''user_id'' \<mapsto> Null, ''title'' \<mapsto> Null,
      ''description'' \<mapsto> Null, ''language'' \<mapsto> Null, ''topic'' \<mapsto> Null,
      ''difficulty'' \<mapsto> Null, ''solution_code'' \<mapsto> Null, ''status'' \<mapsto> Text ''To Do'',
      ''created_at'' \<mapsto> Timestamp now, ''updated_at'' \<mapsto> Timestamp now,
      ''notes'' \<mapsto> Null, ''last_solved_at'' \<mapsto> Null]"

definition insertRow :: "row list \<Rightarrow> (string \<times> sqlvalue) list \<Rightarrow> string \<Rightarrow> int \<Rightarrow> row list" where
  \<comment> \<open>\<open>supabase.from("coding_questions").insert([payload])\<close>\<close>
  "insertRow table payload newId now = table @ [setColumns (defaultRow newId now) payload]"

definition updateRows :: "row list \<Rightarrow> (string \<times> sqlvalue) list \<Rightarrow> string \<Rightarrow> int \<Rightarrow> row list" where
  \<comment> \<open>\<open>supabase.from("coding_questions").update(payload).eq("id", id)\<close>\<close>
  "updateRows table payload rowId now =
     map (\<lambda>r. if r ''id'' = Some (Text rowId)
              then (setColumns r payload)(''updated_at'' \<mapsto> Timestamp now)
              else r) table"

definition handleSubmit ::
  "row list \<Rightarrow> formData \<Rightarrow> string option \<Rightarrow> string option \<Rightarrow> bool \<Rightarrow> string \<Rightarrow> int \<Rightarrow> row list" where
  \<comment> \<open>\<open>routeId\<close> is the route parameter \<open>id\<close>; \<open>isEdit = Boolean(id)\<close>\<close>
  "handleSubmit table formData user_id routeId accepted newId now =
     (let payload = payloadOf formData user_id
      in if \<not> accepted then table
         else (case routeId of
                 Some i \<Rightarrow> updateRows table payload i now
               | None \<Rightarrow> insertRow table payload newId now))"

section \<open>Question rows as the views fetch them\<close>

text \<open>
  The views select \<open>status\<close>, \<open>last_solved_at\<close> and \<open>updated_at\<close> of each row of
  \<open>coding_questions\<close>. A timestamp column arrives as a text or \<open>null\<close>. The views use such
  a field in two ways only: its truthiness (\<open>null\<close> and the empty text are falsy) and
  \<open>new Date(field)\<close>. A field is therefore \<open>None\<close> when it is falsy and otherwise
  \<open>Some d\<close> with \<open>d\<close> the date that \<open>new Date\<close> makes of it (\<open>Invalid\<close> for a text that is
  no timestamp). The list of rows is the \<open>data\<close> of a query that succeeded; when the query
  reports an error, \<open>fetchStats\<close> throws before it computes anything and the page keeps
  the statistics it had.
\<close>

record question =
  status :: string
  last_solved_at :: "Date option"
  updated_at :: "Date option"


section \<open>The Profile page with the activity calendar\<close>

text \<open>
  \<open>fetchStats\<close> of the Profile page that draws the activity calendar
  (\<open>src/unnamed/part_001\<close>). \<open>now\<close> is the time value of \<open>new Date()\<close>. The loop that
  looks for the Sunday has no bound of its own; \<open>None\<close> stands for a run in which it does
  not end.
\<close>

partial_function (option) alignSunday :: "zone \<Rightarrow> int \<Rightarrow> int option" where
  \<comment> \<open>\<open>while (startOfRange.getDay() !== 0) startOfRange.setDate(startOfRange.getDate() - 1)\<close>\<close>
  "alignSunday z t = (if getDay z t \<noteq> 0 then alignSunday z (addDays z t (- 1)) else Some t)"

declare alignSunday.simps [code]

definition startOfRange :: "zone \<Rightarrow> int \<Rightarrow> int option" where
  \<comment> \<open>today minus 364 days, then back to the Sunday on or before it\<close>
  "startOfRange z today = alignSunday z (addDays z today (- 364))"

definition dateSource :: "question \<Rightarrow> Date option" where
  \<comment> \<open>\<open>last_solved_at\<close> if present; otherwise, if completed, \<open>updated_at\<close>; otherwise \<open>null\<close>\<close>
  "dateSource q =
     (case last_solved_at q of
        Some d \<Rightarrow> Some d
      | None \<Rightarrow>
          (if status q = ''Completed''
           then (case updated_at q of Some d \<Rightarrow> Some d | None \<Rightarrow> None)
           else None))"

definition activityStep ::
  "zone \<Rightarrow> int \<Rightarrow> int \<Rightarrow> (int \<times> nat) list \<Rightarrow> question \<Rightarrow> error + (int \<times> nat) list" where
  \<comment> \<open>the body of \<open>questions.forEach\<close>, on the object \<open>activity\<close>\<close>
  "activityStep z start today activity q =
     (case dateSource q of
        None \<Rightarrow> Inr activity
      | Some d \<Rightarrow>
          (let d0 = setHours0D z d
           in if dateGe d0 start \<and> dateLe d0 today
              then (case toKey d0 of
                      Inl e \<Rightarrow> Inl e
                    | Inr key \<Rightarrow> Inr (objSet activity key (orZero (objGet activity key) + 1)))
              else Inr activity))"

fun forEachQuestion ::
  "zone \<Rightarrow> int \<Rightarrow> int \<Rightarrow> (int \<times> nat) list \<Rightarrow> question list \<Rightarrow> error + (int \<times> nat) list" where
  "forEachQuestion z start today activity [] = Inr activity"
| "forEachQuestion z start today activity (q # qs) =
     (case activityStep z start today activity q of
        Inl e \<Rightarrow> Inl e
      | Inr activity' \<Rightarrow> forEachQuestion z start today activity' qs)"

definition totalDays :: nat where
  "totalDays = 53 * 7"

definition generateDays :: "zone \<Rightarrow> int \<Rightarrow> int list" where
  \<comment> \<open>the 53 weeks of 7 days from \<open>startOfRange\<close> on\<close>
  "generateDays z start = map (\<lambda>i. addDays z start (int i)) [0..<totalDays]"

fun currentStreakLoop :: "zone \<Rightarrow> int \<Rightarrow> Date list \<Rightarrow> nat \<Rightarrow> nat \<Rightarrow> nat" where
  \<comment> \<open>the loop on \<open>i\<close>, at \<open>uniqueDates[i..]\<close>; \<open>ref\<close> is a copy of \<open>today\<close>\<close>
  "currentStreakLoop z ref [] i currentStreak = currentStreak"
| "currentStreakLoop z ref (u # us) i currentStreak =
     (let expected = addDays z ref (- int i)
      in if toDateString z u = toDateString z (Valid expected)
         then currentStreakLoop z ref us (Suc i) (Suc currentStreak)
         else currentStreak)"

definition diffDays :: "Date \<Rightarrow> Date \<Rightarrow> int option" where
  \<comment> \<open>\<open>Math.round((a.getTime() - b.getTime()) / (1000 * 60 * 60 * 24))\<close>; \<open>None\<close> is NaN.
      The nearest integer, a tie upwards. (The quotient is rounded to a double first; for
      time values less than a million days apart that changes the nearest integer of no
      whole number of milliseconds.)\<close>
  "diffDays a b =
     (case a of Invalid \<Rightarrow> None
      | Valid x \<Rightarrow>
          (case b of Invalid \<Rightarrow> None
           | Valid y \<Rightarrow> Some ((2 * (x - y) + msPerDay) div (2 * msPerDay))))"

fun longestStreakLoop :: "Date \<Rightarrow> Date list \<Rightarrow> nat \<Rightarrow> nat \<Rightarrow> nat \<times> nat" where
  \<comment> \<open>the loop on \<open>i\<close> from 1, at \<open>uniqueDates[i - 1]\<close> and \<open>uniqueDates[i..]\<close>; the result is
      \<open>(tempStreak, longestStreak)\<close> at the loop's end\<close>
  "longestStreakLoop prev [] tempStreak longestStreak = (tempStreak, longestStreak)"
| "longestStreakLoop prev (u # us) tempStreak longestStreak =
     (if diffDays prev u = Some 1
      then longestStreakLoop u us (Suc tempStreak) (max longestStreak (Suc tempStreak))
      else longestStreakLoop u us 1 longestStreak)"

definition uniqueDatesOf :: "zone \<Rightarrow> Date list \<Rightarrow> Date list" where
  \<comment> \<open>\<open>Array.from(new Set(dates.map((d) => d.toDateString()))).map((d) => new Date(d))\<close>\<close>
  "uniqueDatesOf z dates =
     map (parseDateString z) (setFromList (map (toDateString z) dates))"

definition calendarLoops :: "zone \<Rightarrow> int \<Rightarrow> Date list \<Rightarrow> nat \<times> nat" where
  \<comment> \<open>the two loops on \<open>uniqueDates\<close>: \<open>(currentStreak, longestStreak)\<close>\<close>
  "calendarLoops z today uniqueDates =
     (let currentStreak = currentStreakLoop z today uniqueDates 0 0;
          (tempStreak, longestStreak) =
            (case uniqueDates of
               [] \<Rightarrow> (1, 0)
             | u # us \<Rightarrow> longestStreakLoop u us 1 0)
      in (currentStreak, max longestStreak tempStreak))"

definition calendarStreaks ::
  "zone \<Rightarrow> (Date list \<Rightarrow> Date list) \<Rightarrow> int \<Rightarrow> (int \<times> nat) list \<Rightarrow> nat \<times> nat" where
  \<comment> \<open>"Calculate streaks from activity": \<open>(currentStreak, longestStreak)\<close>\<close>
  "calendarStreaks z engineSort today activity =
     (let activeDates = sortDates engineSort (map parseKey (map fst activity))
      in if length activeDates > 0
         then calendarLoops z today (uniqueDatesOf z activeDates)
         else (0, 0))"

section \<open>The streak loops of the earlier Profile page and of the Dashboard\<close>

text \<open>
  The Profile page without the calendar (\<open>src/src/pages/Profile.tsx\<close>) and the Dashboard
  (\<open>src/unnamed/part_003\<close>) take their dates from \<open>last_solved_at\<close> alone:
  \<open>questions.filter((q) => q.last_solved_at).map((q) => new Date(q.last_solved_at!))\<close>,
  sorted newest first. The Dashboard's \<open>while\<close> loop has no bound of its own; \<open>None\<close>
  stands for a run in which it does not end.
\<close>

definition solvedDatesOf :: "(Date list \<Rightarrow> Date list) \<Rightarrow> question list \<Rightarrow> Date list" where
  "solvedDatesOf engineSort questions =
     sortDates engineSort (List.map_filter last_solved_at questions)"

fun profileCurrentLoop :: "zone \<Rightarrow> int \<Rightarrow> Date list \<Rightarrow> nat \<Rightarrow> nat \<Rightarrow> nat \<Rightarrow> nat \<times> nat" where
  \<comment> \<open>Profile.tsx, the loop on \<open>i\<close> at \<open>uniqueDates[i..]\<close>; the result is
      \<open>(currentStreak, tempStreak)\<close>\<close>
  "profileCurrentLoop z today [] i currentStreak tempStreak = (currentStreak, tempStreak)"
| "profileCurrentLoop z today (currentDate # rest) i currentStreak tempStreak =
     (let expectedDate = setHours0 z (addDays z today (- int i))
      in if toDateString z currentDate = toDateString z (Valid expectedDate)
         then profileCurrentLoop z today rest (Suc i) (Suc currentStreak) (Suc tempStreak)
         else (currentStreak, tempStreak))"

definition withinOneDay :: "Date \<Rightarrow> Date \<Rightarrow> bool" where
  \<comment> \<open>\<open>Math.abs((a.getTime() - b.getTime()) / (1000 * 60 * 60 * 24)) <= 1\<close>; false on NaN.
      (An integral number of milliseconds beyond one day gives a quotient above 1 in double
      precision too.)\<close>
  "withinOneDay a b =
     (case a of Invalid \<Rightarrow> False
      | Valid x \<Rightarrow> (case b of Invalid \<Rightarrow> False | Valid y \<Rightarrow> \<bar>x - y\<bar> \<le> msPerDay))"

fun profileLongestLoop :: "Date \<Rightarrow> Date list \<Rightarrow> nat \<Rightarrow> nat \<Rightarrow> nat \<times> nat" where
  \<comment> \<open>Profile.tsx, the loop on \<open>i\<close> from 1; the result is \<open>(tempStreak, longestStreak)\<close>\<close>
  "profileLongestLoop prev [] tempStreak longestStreak = (tempStreak, longestStreak)"
| "profileLongestLoop prev (u # us) tempStreak longestStreak =
     (if withinOneDay prev u
      then profileLongestLoop u us (Suc tempStreak) (max longestStreak (Suc tempStreak))
      else profileLongestLoop u us 1 longestStreak)"

definition profileLoops :: "zone \<Rightarrow> int \<Rightarrow> Date list \<Rightarrow> nat \<times> nat" where
  \<comment> \<open>Profile.tsx, the two loops on \<open>uniqueDates\<close>: \<open>(currentStreak, longestStreak)\<close>;
      \<open>tempStreak\<close> is set to 1 between them\<close>
  "profileLoops z today uniqueDates =
     (let (currentStreak, tempStreak0) = profileCurrentLoop z today uniqueDates 0 0 0;
          (tempStreak, longestStreak) =
            (case uniqueDates of
               [] \<Rightarrow> (1, 0)
             | u # us \<Rightarrow> profileLongestLoop u us 1 0)
      in (currentStreak, max longestStreak tempStreak))"

definition profileStreaks ::
  "zone \<Rightarrow> (Date list \<Rightarrow> Date list) \<Rightarrow> int \<Rightarrow> question list \<Rightarrow> nat \<times> nat" where
  \<comment> \<open>Profile.tsx, "Calculate streaks": \<open>(currentStreak, longestStreak)\<close>\<close>
  "profileStreaks z engineSort now questions =
     (let solvedDates = solvedDatesOf engineSort questions
      in if length solvedDates > 0
         then profileLoops z (setHours0 z now) (uniqueDatesOf z solvedDates)
         else (0, 0))"

partial_function (option) walkBack :: "zone \<Rightarrow> DateString list \<Rightarrow> int \<Rightarrow> nat \<Rightarrow> nat option" where
  \<comment> \<open>Dashboard: \<open>while (uniqueDates.has(currentDate.toDateString()))
      { streak++; currentDate.setDate(currentDate.getDate() - 1); }\<close>\<close>
  "walkBack z uniqueDates currentDate streak =
     (if toDateString z (Valid currentDate) \<in> set uniqueDates
      then walkBack z uniqueDates (addDays z currentDate (- 1)) (Suc streak)
      else Some streak)"

declare walkBack.simps [code]

definition Dashboard_streak ::
  "zone \<Rightarrow> (Date list \<Rightarrow> Date list) \<Rightarrow> int \<Rightarrow> question list \<Rightarrow> nat option" where
  \<comment> \<open>Dashboard \<open>fetchStats\<close>, "Calculate streak"\<close>
  "Dashboard_streak z engineSort now questions =
     (let sortedDates = solvedDatesOf engineSort questions
      in if length sortedDates > 0
         then
           (let today = setHours0 z now;
                uniqueDates = setFromList (map (toDateString z) sortedDates);
                yesterday = addDays z today (- 1)
            in if toDateString z (Valid today) \<in> set uniqueDates
                  \<or> toDateString z (Valid yesterday) \<in> set uniqueDates
               then walkBack z uniqueDates today 0
               else Some 0)
         else Some 0)"

record Stats =
  total :: nat
  completed :: nat
  completionRate :: nat
  currentStreak :: nat
  longestStreak :: nat

record ProfileState =
  stats :: Stats
  activityMap :: "(int \<times> nat) list"
  yearDays :: "int list"

definition ProfileCalendar_fetchStats ::
  "zone \<Rightarrow> (Date list \<Rightarrow> Date list) \<Rightarrow> int \<Rightarrow> question list \<Rightarrow> (error + ProfileState) option" where
  "ProfileCalendar_fetchStats z engineSort now questions =
     (let totalN = length questions;
          completedN = length (filter (\<lambda>q. status q = ''Completed'') questions);
          rate = completionRateOf totalN completedN;
          today = setHours0 z now
      in case startOfRange z today of
           None \<Rightarrow> None
         | Some start \<Rightarrow>
             Some (case forEachQuestion z start today [] questions of
                     Inl e \<Rightarrow> Inl e
                   | Inr activity \<Rightarrow>
                       (let days = generateDays z start;
                            (current, longest) = calendarStreaks z engineSort today activity
                        in Inr \<lparr>stats = \<lparr>total = totalN, completed = completedN,
                                          completionRate = rate,
                                          currentStreak = current, longestStreak = longest\<rparr>,
                                 activityMap = activity, yearDays = days\<rparr>)))"


definition Profile_fetchStats ::
  "zone \<Rightarrow> (Date list \<Rightarrow> Date list) \<Rightarrow> int \<Rightarrow> question list \<Rightarrow> Stats" where
  \<comment> \<open>\<open>fetchStats\<close> of \<open>src/src/pages/Profile.tsx\<close>\<close>
  "Profile_fetchStats z engineSort now questions =
     (let totalN = length questions;
          completedN = length (filter (\<lambda>q. status q = ''Completed'') questions);
          rate = completionRateOf totalN completedN;
          (current, longest) = profileStreaks z engineSort now questions
      in \<lparr>total = totalN, completed = completedN, completionRate = rate,
          currentStreak = current, longestStreak = longest\<rparr>)"

section \<open>The statistics as the specification words them\<close>

text \<open>
  The definitions of this section follow the specification, not the code; the theorems
  compare the two.
\<close>

definition spec_completionRate :: "nat \<Rightarrow> nat \<Rightarrow> nat" where
  \<comment> \<open>0 when \<open>total\<close> is 0, otherwise \<open>round(100 * completed / total)\<close>: the nearest
      integer, a tie upwards\<close>
  "spec_completionRate totalN completedN =
     (if totalN = 0 then 0 else (2 * (100 * completedN) + totalN) div (2 * totalN))"

definition activityDate :: "question \<Rightarrow> Date option" where
  \<comment> \<open>the completion timestamp if present, else (for a completed record lacking it) the
      last-updated timestamp, else no contribution\<close>
  "activityDate q =
     (if last_solved_at q \<noteq> None then last_solved_at q
      else if status q = ''Completed'' then updated_at q
      else None)"

definition activityDay :: "zone \<Rightarrow> question \<Rightarrow> int option" where
  \<comment> \<open>the activity date normalised to a local calendar day; a malformed timestamp gives none\<close>
  "activityDay z q =
     (case activityDate q of
        None \<Rightarrow> None
      | Some Invalid \<Rightarrow> None
      | Some (Valid t) \<Rightarrow> Some (localDay z t))"

definition activeDays :: "zone \<Rightarrow> question list \<Rightarrow> int list" where
  \<comment> \<open>the active days of a list of records\<close>
  "activeDays z questions = List.map_filter (activityDay z) questions"

function spec_currentStreak :: "int list \<Rightarrow> int \<Rightarrow> nat" where
  \<comment> \<open>starting from day \<open>d\<close>, walk backward one day at a time while the day is active; the
      number of steps taken\<close>
  "spec_currentStreak active d =
     (if d \<in> set active then Suc (spec_currentStreak active (d - 1)) else 0)"
  by pat_completeness auto
termination
proof (relation "measure (\<lambda>(active, d). length (filter (\<lambda>a. a \<le> d) active))")
  show "wf (measure (\<lambda>(active, d). length (filter (\<lambda>a. a \<le> d) active)))" by simp
next
  fix active :: "int list" and d :: int
  assume a: "d \<in> set active"
  have "filter (\<lambda>a. a \<le> d - 1) active = filter (\<lambda>a. a \<le> d - 1) (filter (\<lambda>a. a \<le> d) active)"
    by (auto intro!: filter_cong)
  moreover have "length (filter (\<lambda>a. a \<le> d - 1) (filter (\<lambda>a. a \<le> d) active))
                 < length (filter (\<lambda>a. a \<le> d) active)"
    using a by (intro length_filter_less[of d]) auto
  ultimately
  show "((active, d - 1), (active, d)) \<in> measure (\<lambda>(active, d). length (filter (\<lambda>a. a \<le> d) active))"
    by simp
qed

declare spec_currentStreak.simps [simp del]

definition descendingDays :: "int list \<Rightarrow> int list" where
  \<comment> \<open>the unique days, sorted descending\<close>
  "descendingDays days = rev (sort (remdups days))"

fun runLengths :: "int list \<Rightarrow> nat list" where
  \<comment> \<open>the lengths of the runs of a descending list of days: adjacent days are in the same
      run when they differ by exactly 1; a single day is a run of 1\<close>
  "runLengths [] = []"
| "runLengths [d] = [1]"
| "runLengths (d # e # ds) =
     (case runLengths (e # ds) of
        [] \<Rightarrow> [1]
      | r # rs \<Rightarrow> if d - e = 1 then Suc r # rs else 1 # r # rs)"

definition spec_longestStreak :: "int list \<Rightarrow> nat" where
  \<comment> \<open>the maximum run length, 0 without any active day\<close>
  "spec_longestStreak days = foldr max (runLengths (descendingDays days)) 0"

section \<open>The calendar window, and notions used to state the theorems\<close>

text \<open>
  The window of the calendar in calendar days: from the Sunday on or before the day 364
  days before today, through today. The other definitions name what the theorems speak
  about: the records inside the window and their days, the key of a day and of a record,
  the object that counting keys builds, the projections of a result, and the zones and
  engines that the general theorems are about.
\<close>

definition windowStartDay :: "zone \<Rightarrow> int \<Rightarrow> int" where
  \<comment> \<open>the Sunday on or before the day 364 days before today\<close>
  "windowStartDay z now = (localDay z now - 364) - (localDay z now - 364 + 4) mod 7"


definition inWindow :: "zone \<Rightarrow> int \<Rightarrow> question \<Rightarrow> bool" where
  \<comment> \<open>the record's activity day lies from the window's start through today\<close>
  "inWindow z now q =
     (case activityDay z q of
        None \<Rightarrow> False
      | Some d \<Rightarrow> windowStartDay z now \<le> d \<and> d \<le> localDay z now)"

definition windowActiveDays :: "zone \<Rightarrow> int \<Rightarrow> question list \<Rightarrow> int list" where
  \<comment> \<open>the active days inside the window\<close>
  "windowActiveDays z now questions = activeDays z (filter (inWindow z now) questions)"

definition wellDated :: "question \<Rightarrow> bool" where
  \<comment> \<open>the record has an activity date and it is a well-formed timestamp\<close>
  "wellDated q = (case activityDate q of Some (Valid t) \<Rightarrow> True | _ \<Rightarrow> False)"

definition solvedDays :: "zone \<Rightarrow> question list \<Rightarrow> int list" where
  \<comment> \<open>the local days of the completion timestamps, for the views that read nothing else\<close>
  "solvedDays z questions =
     List.map_filter (\<lambda>q. case last_solved_at q of Some (Valid t) \<Rightarrow> Some (localDay z t) | _ \<Rightarrow> None)
       questions"

definition dayKey :: "zone \<Rightarrow> int \<Rightarrow> int" where
  \<comment> \<open>the calendar key of a local day: the UTC date at its local midnight\<close>
  "dayKey z d = localMidnight z d div msPerDay"

definition activityKey :: "zone \<Rightarrow> int \<Rightarrow> question \<Rightarrow> int option" where
  \<comment> \<open>the calendar key of a record inside the window: the key of its activity day\<close>
  "activityKey z now q =
     (if inWindow z now q then map_option (dayKey z) (activityDay z q) else None)"

definition tally :: "(int \<times> nat) list \<Rightarrow> int list \<Rightarrow> (int \<times> nat) list" where
  \<comment> \<open>the object after counting the keys one by one\<close>
  "tally activity keys = foldl (\<lambda>a key. objSet a key (orZero (objGet a key) + 1)) activity keys"

definition loopResult :: "nat \<times> nat \<Rightarrow> nat" where
  \<comment> \<open>\<open>Math.max(longestStreak, tempStreak)\<close> on the pair \<open>(tempStreak, longestStreak)\<close> that a
      longest-streak loop ends with\<close>
  "loopResult p = max (snd p) (fst p)"

definition calendarOutputs ::
  "(error + ProfileState) option \<Rightarrow> (error + (int \<times> nat) list \<times> nat \<times> nat) option" where
  \<comment> \<open>\<open>activityMap\<close>, \<open>currentStreak\<close> and \<open>longestStreak\<close> of a result\<close>
  "calendarOutputs res =
     map_option
       (\<lambda>r. case r of
              Inl e \<Rightarrow> Inl e
            | Inr st \<Rightarrow> Inr (activityMap st, currentStreak (stats st), longestStreak (stats st)))
       res"

definition regular :: "zone \<Rightarrow> bool" where
  \<comment> \<open>every local day has its midnight, and the local date never goes back as time goes
      on: the clocks change by less than a day and not across midnight\<close>
  "regular z =
     ((\<forall>d. LocalTime z (localMidnight z d) = d * msPerDay)
      \<and> (\<forall>a b. a \<le> b \<longrightarrow> localDay z a \<le> localDay z b))"


section \<open>Evaluating the double-precision operations\<close>

lemma scaleUp_steps:
  "0 < c \<Longrightarrow> j \<le> k \<Longrightarrow> 2 ^ 52 * t \<le> c * 2 ^ k \<Longrightarrow>
   (\<And>i. j \<le> i \<Longrightarrow> i < k \<Longrightarrow> c * 2 ^ i < 2 ^ 52 * t) \<Longrightarrow> scaleUp c t j = k"
proof (induction "k - j" arbitrary: j)
  case 0
  then have "j = k" by simp
  with 0 show ?case by (subst scaleUp.simps) simp
next
  case (Suc n)
  then have "j < k" by simp
  with Suc.prems have "c * 2 ^ j < 2 ^ 52 * t" by simp
  moreover have "scaleUp c t (Suc j) = k"
    using Suc by (intro Suc.hyps(1)) auto
  ultimately show ?case using \<open>0 < c\<close> by (subst scaleUp.simps) simp
qed

lemma scaleUp_value:
  assumes "0 < c" and "2 ^ 52 * t \<le> c * 2 ^ k" and "k = 0 \<or> c * 2 ^ (k - 1) < 2 ^ 52 * t"
  shows "scaleUp c t 0 = k"
proof (rule scaleUp_steps)
  fix i assume "i < k"
  then have "k \<noteq> 0" and le: "i \<le> k - 1" by simp_all
  with assms(3) have "c * 2 ^ (k - 1) < 2 ^ 52 * t" by simp
  moreover have "(2::nat) ^ i \<le> 2 ^ (k - 1)" using le by (simp add: power_increasing)
  ultimately show "c * 2 ^ i < 2 ^ 52 * t"
    by (meson le_less_trans mult_le_mono2)
qed (use assms in simp_all)

lemma scaleDown_steps:
  "j \<le> k \<Longrightarrow> p div 2 ^ k < 2 ^ 53 \<Longrightarrow>
   (\<And>i. j \<le> i \<Longrightarrow> i < k \<Longrightarrow> 2 ^ 53 \<le> p div 2 ^ i) \<Longrightarrow> scaleDown p j = k"
proof (induction "k - j" arbitrary: j)
  case 0
  then have "j = k" by simp
  with 0 show ?case by (subst scaleDown.simps) simp
next
  case (Suc n)
  then have "j < k" by simp
  with Suc.prems have "2 ^ 53 \<le> p div 2 ^ j" by simp
  moreover have "scaleDown p (Suc j) = k"
    using Suc by (intro Suc.hyps(1)) auto
  ultimately show ?case by (subst scaleDown.simps) simp
qed

lemma scaleDown_value:
  assumes "p div 2 ^ k < 2 ^ 53" and "k = 0 \<or> 2 ^ 53 \<le> p div 2 ^ (k - 1)"
  shows "scaleDown p 0 = k"
proof (rule scaleDown_steps)
  fix i assume "i < k"
  then have "k \<noteq> 0" and le: "i \<le> k - 1" by simp_all
  with assms(2) have "2 ^ 53 \<le> p div 2 ^ (k - 1)" by simp
  moreover have "(2::nat) ^ i \<le> 2 ^ (k - 1)" using le by (simp add: power_increasing)
  then have "p div 2 ^ (k - 1) \<le> p div 2 ^ i" by (simp add: div_le_mono2)
  ultimately show "2 ^ 53 \<le> p div 2 ^ i" by linarith
qed (use assms in simp_all)

text \<open>23 / 40 is the double 5179139571476070 / 2^53, just below 0.575.\<close>

lemma fdiv_23_40: "fdiv 23 40 = (5179139571476070, 53)"
proof -
  have "scaleUp 23 40 0 = 53" by (rule scaleUp_value) simp_all
  then show ?thesis by (simp add: fdiv_def roundHalfEven_def Let_def)
qed

text \<open>Its product with 100 is the double 8092405580431359 / 2^47, just below 57.5.\<close>

lemma fmul_23_40: "fmul (5179139571476070, 53) 100 = (8092405580431359, 47)"
proof -
  have "scaleDown 517913957147607000 0 = 6" by (rule scaleDown_value) simp_all
  then show ?thesis by (simp add: fmul_def roundHalfEven_def Let_def)
qed

lemma completionRateOf_40_23: "completionRateOf 40 23 = 57"
  by (simp add: completionRateOf_def fdiv_23_40 fmul_23_40 Math_round_def)

lemma completionRateOf_0: "completionRateOf 0 c = 0"
  by (simp add: completionRateOf_def)

section \<open>The question form never writes \<open>last_solved_at\<close>\<close>

lemma setColumns_other: "c \<notin> fst ` set payload \<Longrightarrow> setColumns r payload c = r c"
  unfolding setColumns_def
  by (induction payload arbitrary: r) (auto split: prod.splits)

lemma payloadOf_columns: "''last_solved_at'' \<notin> fst ` set (payloadOf formData user_id)"
  by (cases formData) (auto split: option.splits)

text \<open>
  C9. Whatever the form holds, a submit leaves \<open>last_solved_at\<close> of every row as it was,
  and a row it creates has \<open>last_solved_at\<close> \<open>NULL\<close>. The column is written by no create
  and no update, so in particular by none that does not complete the question.
\<close>

theorem handleSubmit_keeps_last_solved_at:
  "map (\<lambda>r. r ''last_solved_at'')
       (handleSubmit table formData user_id (Some i) accepted newId now)
     = map (\<lambda>r. r ''last_solved_at'') table
   \<and> map (\<lambda>r. r ''last_solved_at'')
       (handleSubmit table formData user_id None accepted newId now)
     = map (\<lambda>r. r ''last_solved_at'') table @ (if accepted then [Some Null] else [])"
  by (simp add: handleSubmit_def updateRows_def insertRow_def setColumns_other payloadOf_columns
      defaultRow_def comp_def)

section \<open>Calendar arithmetic\<close>

lemma msPerDay_pos: "0 < msPerDay"
  by (simp add: msPerDay_def)

text \<open>Under a fixed offset the operations are shifts by that offset.\<close>

lemma localDay_fixed: "localDay (fixedZone tz) t = (t + tz) div msPerDay"
  by (simp add: localDay_def LocalTime_def fixedZone_def)

lemma localMidnight_fixed: "localMidnight (fixedZone tz) d = d * msPerDay - tz"
  by (simp add: localMidnight_def UTC_def fixedZone_def)

lemma addDays_fixed: "addDays (fixedZone tz) t n = t + n * msPerDay"
  by (simp add: addDays_def UTC_def LocalTime_def fixedZone_def)

lemma regular_fixedZone: "regular (fixedZone tz)"
proof -
  have "LocalTime (fixedZone tz) (localMidnight (fixedZone tz) d) = d * msPerDay" for d
    by (simp add: LocalTime_def localMidnight_def UTC_def fixedZone_def)
  moreover have "localDay (fixedZone tz) a \<le> localDay (fixedZone tz) b" if "a \<le> b" for a b
    using that msPerDay_pos by (simp add: localDay_fixed zdiv_mono1)
  ultimately show ?thesis by (simp add: regular_def)
qed

text \<open>In a regular zone local midnights behave like day numbers.\<close>

lemma LocalTime_localMidnight: "regular z \<Longrightarrow> LocalTime z (localMidnight z d) = d * msPerDay"
  by (simp add: regular_def)

lemma localDay_mono: "regular z \<Longrightarrow> a \<le> b \<Longrightarrow> localDay z a \<le> localDay z b"
  by (simp add: regular_def)

lemma localDay_localMidnight: "regular z \<Longrightarrow> localDay z (localMidnight z d) = d"
  using msPerDay_pos by (simp add: localDay_def LocalTime_localMidnight)

lemma addDays_localMidnight:
  "regular z \<Longrightarrow> addDays z (localMidnight z d) n = localMidnight z (d + n)"
proof -
  assume "regular z"
  then have "LocalTime z (localMidnight z d) + n * msPerDay = (d + n) * msPerDay"
    by (simp add: LocalTime_localMidnight algebra_simps)
  then show ?thesis by (simp only: addDays_def localMidnight_def)
qed

lemma localDay_addDays_midnight:
  "regular z \<Longrightarrow> localDay z (addDays z (localMidnight z d) n) = d + n"
  by (simp add: addDays_localMidnight localDay_localMidnight)

lemma localMidnight_le:
  assumes "regular z"
  shows "localMidnight z a \<le> localMidnight z b \<longleftrightarrow> a \<le> b"
proof
  assume "localMidnight z a \<le> localMidnight z b"
  from localDay_mono[OF assms this] show "a \<le> b"
    by (simp add: localDay_localMidnight assms)
next
  assume ab: "a \<le> b"
  show "localMidnight z a \<le> localMidnight z b"
  proof (rule ccontr)
    assume "\<not> localMidnight z a \<le> localMidnight z b"
    then have "localMidnight z b \<le> localMidnight z a" by simp
    from localDay_mono[OF assms this] have "b \<le> a"
      by (simp add: localDay_localMidnight assms)
    with ab have "a = b" by simp
    with \<open>\<not> localMidnight z a \<le> localMidnight z b\<close> show False by simp
  qed
qed

lemma localMidnight_eq:
  assumes "regular z"
  shows "localMidnight z a = localMidnight z b \<longleftrightarrow> a = b"
proof
  assume "localMidnight z a = localMidnight z b"
  then have "localDay z (localMidnight z a) = localDay z (localMidnight z b)" by simp
  then show "a = b" by (simp add: localDay_localMidnight assms)
qed simp

lemma localDay_setHours0: "regular z \<Longrightarrow> localDay z (setHours0 z t) = localDay z t"
  by (simp add: setHours0_def localDay_localMidnight)

lemma getDay_range: "0 \<le> getDay z t \<and> getDay z t < 7"
  by (simp add: getDay_def)

lemma getDay_localMidnight: "regular z \<Longrightarrow> getDay z (localMidnight z d) = (d + 4) mod 7"
  by (simp add: getDay_def localDay_localMidnight)

text \<open>
  From a local midnight the loop that looks for the Sunday ends, at the midnight of the
  Sunday on or before that day.
\<close>

lemma alignSunday_steps:
  "regular z \<Longrightarrow> (d + 4) mod 7 = int n \<Longrightarrow>
   alignSunday z (localMidnight z d) = Some (localMidnight z (d - int n))"
proof (induction n arbitrary: d)
  case 0
  then show ?case
    by (subst alignSunday.simps) (simp add: getDay_localMidnight)
next
  case (Suc n)
  have "(d - 1 + 4) mod 7 = int n"
    using Suc.prems(2) by presburger
  from Suc.IH[OF Suc.prems(1) this]
  have "alignSunday z (localMidnight z (d - 1)) = Some (localMidnight z (d - 1 - int n))" .
  moreover have "getDay z (localMidnight z d) \<noteq> 0"
    using Suc.prems by (simp add: getDay_localMidnight)
  moreover have "addDays z (localMidnight z d) (- 1) = localMidnight z (d - 1)"
    using Suc.prems(1) by (simp add: addDays_localMidnight)
  ultimately show ?case
    by (subst alignSunday.simps) (simp add: algebra_simps)
qed

lemma alignSunday_eq:
  assumes "regular z"
  shows "alignSunday z (localMidnight z d) = Some (localMidnight z (d - (d + 4) mod 7))"
proof -
  have "0 \<le> (d + 4) mod 7" by simp
  then have "(d + 4) mod 7 = int (nat ((d + 4) mod 7))" by simp
  from alignSunday_steps[OF assms this] show ?thesis by simp
qed

lemma startOfRange_eq:
  "regular z \<Longrightarrow>
   startOfRange z (setHours0 z now) = Some (localMidnight z (windowStartDay z now))"
  by (simp add: startOfRange_def setHours0_def addDays_localMidnight alignSunday_eq
      windowStartDay_def)



section \<open>The loop over the questions\<close>

lemma dateSource_activityDate: "dateSource q = activityDate q"
  by (simp add: dateSource_def activityDate_def split: option.splits)

lemma activityStep_eq:
  assumes "regular z"
  shows "activityStep z (localMidnight z (windowStartDay z now)) (setHours0 z now) activity q =
     Inr (case activityKey z now q of
            None \<Rightarrow> activity
          | Some key \<Rightarrow> objSet activity key (orZero (objGet activity key) + 1))"
proof (cases "activityDate q")
  case None
  then show ?thesis
    by (simp add: activityStep_def dateSource_activityDate activityKey_def inWindow_def
        activityDay_def)
next
  case (Some d)
  show ?thesis
  proof (cases d)
    case Invalid
    with Some show ?thesis
      by (simp add: activityStep_def dateSource_activityDate activityKey_def inWindow_def
          activityDay_def setHours0D_def dateGe_def)
  next
    case (Valid t)
    with Some show ?thesis
      by (simp add: activityStep_def dateSource_activityDate activityKey_def inWindow_def
          activityDay_def setHours0D_def dateGe_def dateLe_def toKey_def dayKey_def
          setHours0_def localMidnight_le[OF assms])
  qed
qed

lemma forEachQuestion_eq:
  assumes "regular z"
  shows "forEachQuestion z (localMidnight z (windowStartDay z now)) (setHours0 z now) activity qs =
     Inr (tally activity (List.map_filter (activityKey z now) qs))"
proof (induction qs arbitrary: activity)
  case Nil
  show ?case by (simp add: tally_def)
next
  case (Cons q qs)
  show ?case
    by (cases "activityKey z now q") (simp_all add: activityStep_eq[OF assms] Cons tally_def)
qed

lemma fetchStats_eq:
  assumes "regular z"
  shows "ProfileCalendar_fetchStats z engineSort now qs =
     Some (Inr \<lparr>stats =
            \<lparr>total = length qs,
             completed = length (filter (\<lambda>q. status q = ''Completed'') qs),
             completionRate =
               completionRateOf (length qs) (length (filter (\<lambda>q. status q = ''Completed'') qs)),
             currentStreak =
               fst (calendarStreaks z engineSort (setHours0 z now)
                      (tally [] (List.map_filter (activityKey z now) qs))),
             longestStreak =
               snd (calendarStreaks z engineSort (setHours0 z now)
                      (tally [] (List.map_filter (activityKey z now) qs)))\<rparr>,
           activityMap = tally [] (List.map_filter (activityKey z now) qs),
           yearDays = generateDays z (localMidnight z (windowStartDay z now))\<rparr>)"
  by (simp add: ProfileCalendar_fetchStats_def startOfRange_eq[OF assms]
      forEachQuestion_eq[OF assms] Let_def case_prod_beta)

lemma Profile_fetchStats_rate:
  "completionRate (Profile_fetchStats z engineSort now qs) =
     completionRateOf (length qs) (length (filter (\<lambda>q. status q = ''Completed'') qs))"
  by (simp add: Profile_fetchStats_def Let_def case_prod_beta)

text \<open>
  C7. With 40 questions of which 23 are completed, both Profile pages show a completion
  rate of 57, whereas \<open>round(100 * 23 / 40) = round(57.5) = 58\<close>: the quotient
  \<open>23 / 40\<close> is rounded to a double before it is multiplied by 100, and the product
  falls just below 57.5.
\<close>

theorem completionRate_23_of_40:
  "completionRate (Profile_fetchStats z engineSort now
      (replicate 23 \<lparr>status = ''Completed'', last_solved_at = None, updated_at = None\<rparr>
       @ replicate 17 \<lparr>status = ''To Do'', last_solved_at = None, updated_at = None\<rparr>)) = 57
   \<and> map_option (map_sum id (completionRate \<circ> stats))
       (ProfileCalendar_fetchStats (fixedZone tz) engineSort now
         (replicate 23 \<lparr>status = ''Completed'', last_solved_at = None, updated_at = None\<rparr>
          @ replicate 17 \<lparr>status = ''To Do'', last_solved_at = None, updated_at = None\<rparr>))
       = Some (Inr 57)
   \<and> spec_completionRate 40 23 = 58"
  by (simp add: Profile_fetchStats_rate fetchStats_eq[OF regular_fixedZone]
      completionRateOf_40_23 spec_completionRate_def)

section \<open>London and New York are regular zones\<close>

lemma inSummer_two:
  "inSummer [(s1, e1), (s2, e2)] t \<longleftrightarrow> (s1 \<le> t \<and> t < e1) \<or> (s2 \<le> t \<and> t < e2)"
  by (auto simp: inSummer_def)

lemma London_midnights:
  "LocalTime Europe_London (localMidnight Europe_London d) = d * msPerDay"
  unfolding LocalTime_def localMidnight_def UTC_def Europe_London_def summerZone_def
    zone.sel inSummer_two msPerDay_def
  by (simp split: if_splits)

lemma New_York_midnights:
  "LocalTime America_New_York (localMidnight America_New_York d) = d * msPerDay"
  unfolding LocalTime_def localMidnight_def UTC_def America_New_York_def summerZone_def
    zone.sel inSummer_two msPerDay_def
  by (simp split: if_splits)

text \<open>
  When the clocks go back, local time repeats an hour; the local date stays the same as
  long as the hour does not reach back over midnight.
\<close>

lemma day_mono_across_change:
  fixes a b e k lo hi :: int
  assumes "a < e" and "e \<le> b" and "(e - 1 + hi) div msPerDay \<le> k" and "k \<le> (e + lo) div msPerDay"
  shows "(a + hi) div msPerDay \<le> (b + lo) div msPerDay"
proof -
  have "(a + hi) div msPerDay \<le> (e - 1 + hi) div msPerDay"
    using assms(1) by (intro zdiv_mono1) (simp_all add: msPerDay_def)
  moreover have "(e + lo) div msPerDay \<le> (b + lo) div msPerDay"
    using assms(2) by (intro zdiv_mono1) (simp_all add: msPerDay_def)
  ultimately show ?thesis using assms(3,4) by linarith
qed

lemma London_days:
  assumes "a \<le> b"
  shows "localDay Europe_London a \<le> localDay Europe_London b"
proof -
  let ?o = "offsetAt Europe_London"
  have off: "?o t = (if (1679792400000 \<le> t \<and> t < 1698541200000)
                         \<or> (1711846800000 \<le> t \<and> t < 1729990800000)
                      then 3600000 else 0)" for t
    by (simp add: Europe_London_def summerZone_def inSummer_two)
  show ?thesis
  proof (cases "?o a \<le> ?o b")
    case True
    with assms have "a + ?o a \<le> b + ?o b" by simp
    then show ?thesis
      unfolding localDay_def LocalTime_def by (intro zdiv_mono1) (simp_all add: msPerDay_def)
  next
    case False
    then have oa: "?o a = 3600000" and ob: "?o b = 0"
      by (auto simp: off split: if_splits)
    from oa have "(1679792400000 \<le> a \<and> a < 1698541200000)
                  \<or> (1711846800000 \<le> a \<and> a < 1729990800000)"
      by (simp add: off split: if_splits)
    then show ?thesis
    proof
      assume a1: "1679792400000 \<le> a \<and> a < 1698541200000"
      with ob assms have "1698541200000 \<le> b" by (simp add: off split: if_splits)
      with a1 have "(a + 3600000) div msPerDay \<le> (b + 0) div msPerDay"
        by (intro day_mono_across_change[where e = 1698541200000 and k = 19659])
           (simp_all add: msPerDay_def)
      then show ?thesis by (simp add: localDay_def LocalTime_def oa ob)
    next
      assume a2: "1711846800000 \<le> a \<and> a < 1729990800000"
      with ob assms have "1729990800000 \<le> b" by (simp add: off split: if_splits)
      with a2 have "(a + 3600000) div msPerDay \<le> (b + 0) div msPerDay"
        by (intro day_mono_across_change[where e = 1729990800000 and k = 20023])
           (simp_all add: msPerDay_def)
      then show ?thesis by (simp add: localDay_def LocalTime_def oa ob)
    qed
  qed
qed

lemma regular_Europe_London: "regular Europe_London"
  by (simp add: regular_def London_midnights London_days)

lemma New_York_days:
  assumes "a \<le> b"
  shows "localDay America_New_York a \<le> localDay America_New_York b"
proof -
  let ?o = "offsetAt America_New_York"
  have off: "?o t = (if (1678604400000 \<le> t \<and> t < 1699164000000)
                         \<or> (1710054000000 \<le> t \<and> t < 1730613600000)
                      then - 14400000 else - 18000000)" for t
    by (simp add: America_New_York_def summerZone_def inSummer_two)
  show ?thesis
  proof (cases "?o a \<le> ?o b")
    case True
    with assms have "a + ?o a \<le> b + ?o b" by simp
    then show ?thesis
      unfolding localDay_def LocalTime_def by (intro zdiv_mono1) (simp_all add: msPerDay_def)
  next
    case False
    then have oa: "?o a = - 14400000" and ob: "?o b = - 18000000"
      by (auto simp: off split: if_splits)
    from oa have "(1678604400000 \<le> a \<and> a < 1699164000000)
                  \<or> (1710054000000 \<le> a \<and> a < 1730613600000)"
      by (simp add: off split: if_splits)
    then show ?thesis
    proof
      assume a1: "1678604400000 \<le> a \<and> a < 1699164000000"
      with ob assms have "1699164000000 \<le> b" by (simp add: off split: if_splits)
      with a1 have "(a + - 14400000) div msPerDay \<le> (b + - 18000000) div msPerDay"
        by (intro day_mono_across_change[where e = 1699164000000 and k = 19666])
           (simp_all add: msPerDay_def)
      then show ?thesis by (simp add: localDay_def LocalTime_def oa ob)
    next
      assume a2: "1710054000000 \<le> a \<and> a < 1730613600000"
      with ob assms have "1730613600000 \<le> b" by (simp add: off split: if_splits)
      with a2 have "(a + - 14400000) div msPerDay \<le> (b + - 18000000) div msPerDay"
        by (intro day_mono_across_change[where e = 1730613600000 and k = 20030])
           (simp_all add: msPerDay_def)
      then show ?thesis by (simp add: localDay_def LocalTime_def oa ob)
    qed
  qed
qed

lemma regular_America_New_York: "regular America_New_York"
  by (simp add: regular_def New_York_midnights New_York_days)

section \<open>The activity object is a tally of keys\<close>

lemma orZero_simps: "orZero None = 0" "orZero (Some v) = v"
  by (simp_all add: orZero_def)

lemma objGet_objSet: "objGet (objSet a k v) k' = (if k' = k then Some v else objGet a k')"
  by (induction a k v rule: objSet.induct) auto

lemma sum_objSet:
  "sum_list (map snd (objSet a k (orZero (objGet a k) + 1))) = sum_list (map snd a) + 1"
  by (induction a k rule: objGet.induct) (auto simp: orZero_def)

lemma tally_snoc:
  "tally a (ks @ [k]) = objSet (tally a ks) k (orZero (objGet (tally a ks) k) + 1)"
  by (simp add: tally_def)

lemma tally_count: "orZero (objGet (tally a ks) k) = orZero (objGet a k) + count_list ks k"
proof (induction ks rule: rev_induct)
  case Nil
  show ?case by (simp add: tally_def)
next
  case (snoc x xs)
  then show ?case by (auto simp: tally_snoc objGet_objSet orZero_simps)
qed

lemma tally_sum: "sum_list (map snd (tally a ks)) = sum_list (map snd a) + length ks"
proof (induction ks rule: rev_induct)
  case Nil
  show ?case by (simp add: tally_def)
next
  case (snoc x xs)
  then show ?case by (simp add: tally_snoc sum_objSet del: One_nat_def)
qed


lemma count_map_filter:
  "count_list (List.map_filter f xs) k = length (filter (\<lambda>x. f x = Some k) xs)"
  by (induction xs) (auto split: option.splits)

lemma length_map_filter: "length (List.map_filter f xs) = length (filter (\<lambda>x. f x \<noteq> None) xs)"
  by (induction xs) (auto split: option.splits)

lemma map_filter_filter:
  "(\<And>x. f x \<noteq> None \<Longrightarrow> P x) \<Longrightarrow> List.map_filter f (filter P xs) = List.map_filter f xs"
  by (induction xs) (auto split: option.splits)

lemma activityKey_None: "activityKey z now q = None \<longleftrightarrow> \<not> inWindow z now q"
  by (auto simp: activityKey_def inWindow_def split: option.splits)

lemma inWindow_wellDated: "inWindow z now q \<Longrightarrow> wellDated q"
  by (auto simp: inWindow_def activityDay_def wellDated_def split: option.splits Date.splits)

text \<open>
  On the Profile page with the calendar a record whose activity date is missing or
  malformed leaves the activity object as it is, \<open>fetchStats\<close> returns, and the activity
  map and both streaks are those of the list without such records.
\<close>

lemma calendar_skips_malformed_step:
  "\<not> wellDated q \<Longrightarrow> activityStep z start today activity q = Inr activity"
  by (auto simp: wellDated_def activityStep_def dateSource_activityDate setHours0D_def
      dateGe_def split: option.splits Date.splits)

lemma calendar_skips_malformed_dates:
  assumes "regular z"
  shows "(\<exists>r. ProfileCalendar_fetchStats z engineSort now qs = Some (Inr r))
   \<and> calendarOutputs (ProfileCalendar_fetchStats z engineSort now qs)
       = calendarOutputs (ProfileCalendar_fetchStats z engineSort now (filter wellDated qs))"
proof -
  have "List.map_filter (activityKey z now) (filter wellDated qs)
        = List.map_filter (activityKey z now) qs"
    by (rule map_filter_filter) (simp add: activityKey_None inWindow_wellDated)
  then show ?thesis
    by (simp add: fetchStats_eq[OF assms] calendarOutputs_def)
qed

text \<open>
  C10. Two lists with the same records inside the window (in the same order) give the same
  activity map, current streak and longest streak, whatever their other records are. This
  holds in every regular zone, so under every fixed offset and in zones with summer time
  such as London and New York.
\<close>

theorem outputs_depend_on_window_only:
  "regular z \<Longrightarrow>
   filter (inWindow z now) qs = filter (inWindow z now) qs' \<Longrightarrow>
   calendarOutputs (ProfileCalendar_fetchStats z engineSort now qs)
     = calendarOutputs (ProfileCalendar_fetchStats z engineSort now qs')"
proof -
  assume r: "regular z"
  assume a: "filter (inWindow z now) qs = filter (inWindow z now) qs'"
  have "List.map_filter (activityKey z now) xs
          = List.map_filter (activityKey z now) (filter (inWindow z now) xs)" for xs
    by (rule map_filter_filter[symmetric]) (simp add: activityKey_None)
  from this[of qs] this[of qs'] a
  have "List.map_filter (activityKey z now) qs = List.map_filter (activityKey z now) qs'"
    by simp
  then show ?thesis
    by (simp add: fetchStats_eq[OF r] calendarOutputs_def)
qed

theorem outputs_depend_on_window_only_witness:
  "filter (inWindow Europe_London 1730206800000)
     [\<lparr>status = ''Completed'', last_solved_at = Some (Valid 1641600000000), updated_at = None\<rparr>,
      \<lparr>status = ''Completed'', last_solved_at = Some (Valid 1729944000000), updated_at = None\<rparr>]
   = filter (inWindow Europe_London 1730206800000)
     [\<lparr>status = ''Completed'', last_solved_at = Some (Valid 1729944000000), updated_at = None\<rparr>]
   \<and> calendarOutputs (ProfileCalendar_fetchStats Europe_London id 1730206800000
     [\<lparr>status = ''Completed'', last_solved_at = Some (Valid 1641600000000), updated_at = None\<rparr>,
      \<lparr>status = ''Completed'', last_solved_at = Some (Valid 1729944000000), updated_at = None\<rparr>])
   = calendarOutputs (ProfileCalendar_fetchStats Europe_London id 1730206800000
     [\<lparr>status = ''Completed'', last_solved_at = Some (Valid 1729944000000), updated_at = None\<rparr>])"
proof -
  have h: "filter (inWindow Europe_London 1730206800000)
     [\<lparr>status = ''Completed'', last_solved_at = Some (Valid 1641600000000), updated_at = None\<rparr>,
      \<lparr>status = ''Completed'', last_solved_at = Some (Valid 1729944000000), updated_at = None\<rparr>]
   = filter (inWindow Europe_London 1730206800000)
     [\<lparr>status = ''Completed'', last_solved_at = Some (Valid 1729944000000), updated_at = None\<rparr>]"
    by (simp add: inWindow_def activityDay_def activityDate_def localDay_def LocalTime_def
        windowStartDay_def msPerDay_def Europe_London_def summerZone_def inSummer_two)
  show ?thesis
    using h outputs_depend_on_window_only[OF regular_Europe_London h] by simp
qed

section \<open>Sorting and deduplicating dates\<close>

lemma consistentOrder_valid: "consistentOrder (map Valid ts)"
proof -
  have "filter isValid (map Valid ts) = map Valid ts"
    by (induction ts) (simp_all add: isValid_def)
  then show ?thesis by (simp add: consistentOrder_def)
qed

lemma sortDates_valid_eq: "sortDates engineSort (map Valid ts) = stableSort (map Valid ts)"
  by (simp add: sortDates_def consistentOrder_valid)

lemma insertDate_valid:
  "sorted_wrt (\<ge>) ys \<Longrightarrow>
   \<exists>zs. insertDate (Valid t) (map Valid ys) = map Valid zs
        \<and> sorted_wrt (\<ge>) zs \<and> set zs = insert t (set ys)"
proof (induction ys)
  case Nil
  have "insertDate (Valid t) (map Valid []) = map Valid [t]" by simp
  then show ?case by (intro exI[of _ "[t]"]) simp
next
  case (Cons y ys)
  show ?case
  proof (cases "y < t")
    case True
    with Cons.prems have "sorted_wrt (\<ge>) (t # y # ys)" by auto
    moreover have "insertDate (Valid t) (map Valid (y # ys)) = map Valid (t # y # ys)"
      using True by (simp add: comesBefore_def)
    ultimately show ?thesis by (intro exI[of _ "t # y # ys"]) auto
  next
    case False
    from Cons obtain zs where zs: "insertDate (Valid t) (map Valid ys) = map Valid zs"
      "sorted_wrt (\<ge>) zs" "set zs = insert t (set ys)" by auto
    have "insertDate (Valid t) (map Valid (y # ys)) = map Valid (y # zs)"
      using False zs(1) by (simp add: comesBefore_def)
    moreover have "sorted_wrt (\<ge>) (y # zs)"
      using False zs Cons.prems by auto
    ultimately show ?thesis using zs(3) by (intro exI[of _ "y # zs"]) auto
  qed
qed

lemma stableSort_snoc: "stableSort (ds @ [d]) = insertDate d (stableSort ds)"
  by (simp add: stableSort_def)

lemma stableSort_valid:
  "\<exists>zs. stableSort (map Valid ts) = map Valid zs \<and> sorted_wrt (\<ge>) zs \<and> set zs = set ts"
proof (induction ts rule: rev_induct)
  case Nil
  show ?case by (simp add: stableSort_def)
next
  case (snoc t ts)
  then obtain zs where zs: "stableSort (map Valid ts) = map Valid zs" "sorted_wrt (\<ge>) zs"
    "set zs = set ts" by auto
  from insertDate_valid[OF zs(2), of t] obtain zs' where
    "insertDate (Valid t) (map Valid zs) = map Valid zs'" "sorted_wrt (\<ge>) zs'"
    "set zs' = insert t (set zs)" by auto
  with zs show ?case by (intro exI[of _ zs']) (simp add: stableSort_snoc)
qed

lemma sortDates_valid:
  "\<exists>zs. sortDates engineSort (map Valid ts) = map Valid zs \<and> sorted_wrt (\<ge>) zs \<and> set zs = set ts"
  by (simp only: sortDates_valid_eq stableSort_valid)

lemma sortDates_valid_Nil_iff: "sortDates engineSort (map Valid ts) = [] \<longleftrightarrow> ts = []"
proof -
  obtain zs where "sortDates engineSort (map Valid ts) = map Valid zs" "set zs = set ts"
    using sortDates_valid by blast
  then show ?thesis by (cases ts; cases zs) auto
qed





lemma setFromList_snoc:
  "setFromList (xs @ [x]) =
     (if x \<in> set (setFromList xs) then setFromList xs else setFromList xs @ [x])"
  by (simp add: setFromList_def)

lemma set_setFromList: "set (setFromList xs) = set xs"
  by (induction xs rule: rev_induct) (auto simp: setFromList_snoc, simp add: setFromList_def)

lemma setFromList_map:
  "inj f \<Longrightarrow> setFromList (map f xs) = map f (setFromList xs)"
proof (induction xs rule: rev_induct)
  case Nil
  show ?case by (simp add: setFromList_def)
next
  case (snoc x xs)
  then show ?case by (simp add: setFromList_snoc inj_image_mem_iff)
qed

lemma setFromList_descending:
  fixes xs :: "int list"
  shows "sorted_wrt (\<ge>) xs \<Longrightarrow> sorted_wrt (>) (setFromList xs)"
proof (induction xs rule: rev_induct)
  case Nil
  show ?case by (simp add: setFromList_def)
next
  case (snoc x xs)
  then have srt: "sorted_wrt (>) (setFromList xs)" and ge: "\<forall>y\<in>set xs. y \<ge> x"
    by (auto simp: sorted_wrt_append)
  show ?case
  proof (cases "x \<in> set (setFromList xs)")
    case True
    with srt show ?thesis by (simp add: setFromList_snoc)
  next
    case False
    then have "\<forall>y\<in>set (setFromList xs). y > x"
      using ge by (auto simp: set_setFromList order_le_less)
    with srt False show ?thesis by (simp add: setFromList_snoc sorted_wrt_append)
  qed
qed

lemma descending_unique:
  fixes zs :: "int list"
  assumes "sorted_wrt (>) zs" and "set zs = set ds"
  shows "zs = descendingDays ds"
proof -
  have "sorted_wrt (<) (rev zs)"
    using assms(1) by (simp add: sorted_wrt_rev)
  then have "sorted (rev zs)" and "distinct (rev zs)"
    by (simp_all add: strict_sorted_iff)
  moreover have "sorted (sort (remdups ds))" and "distinct (sort (remdups ds))" by simp_all
  moreover have "set (rev zs) = set (sort (remdups ds))" using assms(2) by simp
  ultimately have "rev zs = sort (remdups ds)" by (rule sorted_distinct_set_unique)
  then have "rev (rev zs) = rev (sort (remdups ds))" by (rule arg_cong)
  then show ?thesis by (simp add: descendingDays_def)
qed

lemma descendingDays_sorted: "sorted_wrt (>) (descendingDays ds)"
proof -
  have "sorted_wrt (<) (sort (remdups ds))" by (simp add: strict_sorted_iff)
  then show ?thesis by (simp add: descendingDays_def sorted_wrt_rev)
qed

lemma set_descendingDays: "set (descendingDays ds) = set ds"
  by (simp add: descendingDays_def)

lemma descendingDays_cong: "set ds = set es \<Longrightarrow> descendingDays ds = descendingDays es"
  by (rule descending_unique) (simp_all add: descendingDays_sorted set_descendingDays)

lemma descendingDays_Nil_iff: "descendingDays ds = [] \<longleftrightarrow> ds = []"
  using set_descendingDays[of ds] by (metis set_empty)

text \<open>
  The list \<open>uniqueDates\<close> made from valid dates, in a regular zone: the local midnights of
  their days, each day once, newest first.
\<close>

lemma uniqueDates_eq:
  assumes "regular z"
  shows "uniqueDatesOf z (sortDates engineSort (map Valid ts))
     = map (\<lambda>d. Valid (localMidnight z d)) (descendingDays (map (localDay z) ts))"
proof -
  obtain zs where zs: "sortDates engineSort (map Valid ts) = map Valid zs" "sorted_wrt (\<ge>) zs"
    "set zs = set ts" using sortDates_valid by blast
  have "sorted_wrt (\<ge>) (map (localDay z) zs)"
    using zs(2)
    by (simp add: sorted_wrt_map)
       (erule sorted_wrt_mono_rel[rotated], simp add: localDay_mono[OF assms])
  then have "sorted_wrt (>) (setFromList (map (localDay z) zs))"
    by (rule setFromList_descending)
  moreover have "set (setFromList (map (localDay z) zs)) = set (map (localDay z) ts)"
    using zs(3) by (simp add: set_setFromList)
  ultimately have u: "setFromList (map (localDay z) zs) = descendingDays (map (localDay z) ts)"
    by (rule descending_unique)
  have a: "map (toDateString z) (sortDates engineSort (map Valid ts))
           = map DayString (map (localDay z) zs)"
    by (simp add: zs(1) toDateString_def)
  have b: "setFromList (map DayString (map (localDay z) zs))
           = map DayString (setFromList (map (localDay z) zs))"
    by (rule setFromList_map) (simp add: inj_def)
  show ?thesis
    unfolding uniqueDatesOf_def by (simp only: a b u) (simp add: parseDateString_def)
qed

section \<open>Where the current streak is the walk back from today\<close>

lemma spec_currentStreak_cong:
  "(\<And>x. x \<le> d \<Longrightarrow> x \<in> set A \<longleftrightarrow> x \<in> set B) \<Longrightarrow>
   spec_currentStreak A d = spec_currentStreak B d"
proof (induction A d rule: spec_currentStreak.induct)
  case (1 active d)
  show ?case
  proof (cases "d \<in> set active")
    case True
    then have "d \<in> set B" using "1.prems"[of d] by simp
    moreover have "spec_currentStreak active (d - 1) = spec_currentStreak B (d - 1)"
      using True "1.prems" by (intro "1.IH") auto
    ultimately show ?thesis
      using True by (simp add: spec_currentStreak.simps[of active d] spec_currentStreak.simps[of B d])
  next
    case False
    then have "d \<notin> set B" using "1.prems"[of d] by simp
    with False show ?thesis
      by (simp add: spec_currentStreak.simps[of active d] spec_currentStreak.simps[of B d])
  qed
qed





lemma toDateString_expectedDate:
  "regular z \<Longrightarrow>
   toDateString z (Valid (setHours0 z (addDays z (localMidnight z T) (- int i))))
     = DayString (T - int i)"
  by (simp add: toDateString_def localDay_setHours0 addDays_localMidnight localDay_localMidnight)


lemma profileCurrentLoop_acc:
  "fst (profileCurrentLoop z ref us i c t) = c + fst (profileCurrentLoop z ref us i 0 0)"
proof (induction us arbitrary: i c t)
  case Nil
  show ?case by simp
next
  case (Cons u us)
  show ?case
    using Cons[of "Suc i" "Suc c" "Suc t"] Cons[of "Suc i" "Suc 0" "Suc 0"] by (simp add: Let_def)
qed


lemma valid_solved_dates:
  "\<forall>q\<in>set qs. last_solved_at q \<noteq> Some Invalid \<Longrightarrow>
   \<exists>ts. List.map_filter last_solved_at qs = map Valid ts \<and> solvedDays z qs = map (localDay z) ts"
proof (induction qs)
  case Nil
  show ?case by (simp add: solvedDays_def)
next
  case (Cons q qs)
  then obtain ts where ts: "List.map_filter last_solved_at qs = map Valid ts"
    "solvedDays z qs = map (localDay z) ts" by auto
  show ?case
  proof (cases "last_solved_at q")
    case None
    with ts show ?thesis by (intro exI[of _ ts]) (simp add: solvedDays_def)
  next
    case (Some d)
    with Cons.prems obtain t where "d = Valid t" by (cases d) auto
    with Some ts show ?thesis by (intro exI[of _ "t # ts"]) (simp add: solvedDays_def)
  qed
qed



section \<open>The Dashboard's streak and the current streak of Profile.tsx\<close>

lemmas zone_eval =
  localDay_def LocalTime_def UTC_def localMidnight_def addDays_def setHours0_def msPerDay_def
  summerZone_def inSummer_two fixedZone_def Europe_London_def America_New_York_def

lemmas sort_eval =
  sortDates_def consistentOrder_def isValid_def stableSort_def comesBefore_def





section \<open>The streaks at a clock change\<close>

lemmas calendar_eval =
  activityKey_def inWindow_def activityDay_def activityDate_def windowStartDay_def dayKey_def
  tally_def orZero_def calendarStreaks_def calendarLoops_def parseKey_def uniqueDatesOf_def
  setFromList_def toDateString_def parseDateString_def diffDays_def List.map_filter_def

lemmas profile_eval =
  Profile_fetchStats_def profileStreaks_def profileLoops_def solvedDatesOf_def uniqueDatesOf_def
  setFromList_def toDateString_def parseDateString_def withinOneDay_def List.map_filter_def

text \<open>
  C2. Two inputs at which the longest streak is not the longest run of consecutive active
  days. On Profile.tsx in New York, with records solved on 3 and 4 November 2024 (the
  clocks went back on the 3rd, so the two local midnights are 25 hours apart), the longest
  streak is 1 while the days 20030 and 20031 are a run of 2: the loop asks for a difference
  of at most one day. On the Profile page with the calendar in London, with records solved
  on 26, 27, 28 and 29 October 2024 (the clocks went back on the 27th), the longest streak
  is 2 while the four days are a run of 4: the keys are the UTC dates of the local
  midnights, 25, 26, 28 and 29 October.
\<close>

theorem longest_streak_breaks_at_clock_change:
  "longestStreak (Profile_fetchStats America_New_York engineSort 1730736000000
      [\<lparr>status = ''Completed'', last_solved_at = Some (Valid 1730646000000), updated_at = None\<rparr>,
       \<lparr>status = ''Completed'', last_solved_at = Some (Valid 1730732400000), updated_at = None\<rparr>])
     = 1
   \<and> spec_longestStreak (solvedDays America_New_York
      [\<lparr>status = ''Completed'', last_solved_at = Some (Valid 1730646000000), updated_at = None\<rparr>,
       \<lparr>status = ''Completed'', last_solved_at = Some (Valid 1730732400000), updated_at = None\<rparr>])
     = 2
   \<and> map_option (map_sum id (longestStreak \<circ> stats))
       (ProfileCalendar_fetchStats Europe_London engineSort 1730206800000
         [\<lparr>status = ''Completed'', last_solved_at = Some (Valid 1729944000000), updated_at = None\<rparr>,
          \<lparr>status = ''Completed'', last_solved_at = Some (Valid 1730030400000), updated_at = None\<rparr>,
          \<lparr>status = ''Completed'', last_solved_at = Some (Valid 1730116800000), updated_at = None\<rparr>,
          \<lparr>status = ''Completed'', last_solved_at = Some (Valid 1730203200000), updated_at = None\<rparr>])
     = Some (Inr 2)
   \<and> spec_longestStreak (windowActiveDays Europe_London 1730206800000
         [\<lparr>status = ''Completed'', last_solved_at = Some (Valid 1729944000000), updated_at = None\<rparr>,
          \<lparr>status = ''Completed'', last_solved_at = Some (Valid 1730030400000), updated_at = None\<rparr>,
          \<lparr>status = ''Completed'', last_solved_at = Some (Valid 1730116800000), updated_at = None\<rparr>,
          \<lparr>status = ''Completed'', last_solved_at = Some (Valid 1730203200000), updated_at = None\<rparr>])
     = 4"
proof (intro conjI)
  show "longestStreak (Profile_fetchStats America_New_York engineSort 1730736000000
      [\<lparr>status = ''Completed'', last_solved_at = Some (Valid 1730646000000), updated_at = None\<rparr>,
       \<lparr>status = ''Completed'', last_solved_at = Some (Valid 1730732400000), updated_at = None\<rparr>])
     = 1"
    by (simp add: profile_eval sort_eval zone_eval)
next
  have "solvedDays America_New_York
      [\<lparr>status = ''Completed'', last_solved_at = Some (Valid 1730646000000), updated_at = None\<rparr>,
       \<lparr>status = ''Completed'', last_solved_at = Some (Valid 1730732400000), updated_at = None\<rparr>]
     = [20030, 20031]"
    by (simp add: solvedDays_def List.map_filter_def zone_eval)
  moreover have "spec_longestStreak [20030, 20031] = 2"
    by (simp add: spec_longestStreak_def descendingDays_def)
  ultimately show "spec_longestStreak (solvedDays America_New_York
      [\<lparr>status = ''Completed'', last_solved_at = Some (Valid 1730646000000), updated_at = None\<rparr>,
       \<lparr>status = ''Completed'', last_solved_at = Some (Valid 1730732400000), updated_at = None\<rparr>])
     = 2"
    by (simp only:)
next
  show "map_option (map_sum id (longestStreak \<circ> stats))
       (ProfileCalendar_fetchStats Europe_London engineSort 1730206800000
         [\<lparr>status = ''Completed'', last_solved_at = Some (Valid 1729944000000), updated_at = None\<rparr>,
          \<lparr>status = ''Completed'', last_solved_at = Some (Valid 1730030400000), updated_at = None\<rparr>,
          \<lparr>status = ''Completed'', last_solved_at = Some (Valid 1730116800000), updated_at = None\<rparr>,
          \<lparr>status = ''Completed'', last_solved_at = Some (Valid 1730203200000), updated_at = None\<rparr>])
     = Some (Inr 2)"
    by (simp only: fetchStats_eq[OF regular_Europe_London])
       (simp add: calendar_eval sort_eval zone_eval)
next
  have "windowActiveDays Europe_London 1730206800000
         [\<lparr>status = ''Completed'', last_solved_at = Some (Valid 1729944000000), updated_at = None\<rparr>,
          \<lparr>status = ''Completed'', last_solved_at = Some (Valid 1730030400000), updated_at = None\<rparr>,
          \<lparr>status = ''Completed'', last_solved_at = Some (Valid 1730116800000), updated_at = None\<rparr>,
          \<lparr>status = ''Completed'', last_solved_at = Some (Valid 1730203200000), updated_at = None\<rparr>]
     = [20022, 20023, 20024, 20025]"
    by (simp add: windowActiveDays_def activeDays_def inWindow_def activityDay_def activityDate_def
        windowStartDay_def List.map_filter_def zone_eval)
  moreover have "spec_longestStreak [20022, 20023, 20024, 20025] = 4"
    by (simp add: spec_longestStreak_def descendingDays_def)
  ultimately show "spec_longestStreak (windowActiveDays Europe_London 1730206800000
         [\<lparr>status = ''Completed'', last_solved_at = Some (Valid 1729944000000), updated_at = None\<rparr>,
          \<lparr>status = ''Completed'', last_solved_at = Some (Valid 1730030400000), updated_at = None\<rparr>,
          \<lparr>status = ''Completed'', last_solved_at = Some (Valid 1730116800000), updated_at = None\<rparr>,
          \<lparr>status = ''Completed'', last_solved_at = Some (Valid 1730203200000), updated_at = None\<rparr>])
     = 4"
    by (simp only:)
qed

text \<open>
  C4. On Profile.tsx in New York, on 4 November 2024 with records solved on 3 and 4
  November, the current streak is 2 and the longest streak is 1: the first loop compares
  dates, the second asks for local midnights at most 24 hours apart, and these two are 25
  hours apart.
\<close>

theorem longest_streak_below_current_streak:
  "currentStreak (Profile_fetchStats America_New_York engineSort 1730736000000
      [\<lparr>status = ''Completed'', last_solved_at = Some (Valid 1730646000000), updated_at = None\<rparr>,
       \<lparr>status = ''Completed'', last_solved_at = Some (Valid 1730732400000), updated_at = None\<rparr>])
     = 2
   \<and> longestStreak (Profile_fetchStats America_New_York engineSort 1730736000000
      [\<lparr>status = ''Completed'', last_solved_at = Some (Valid 1730646000000), updated_at = None\<rparr>,
       \<lparr>status = ''Completed'', last_solved_at = Some (Valid 1730732400000), updated_at = None\<rparr>])
     = 1
   \<and> localMidnight America_New_York 20031 - localMidnight America_New_York 20030
     = 25 * 3600000"
  by (simp add: profile_eval sort_eval zone_eval)

section \<open>The current streak\<close>

text \<open>
  C1. Two inputs at which the current streak is not the number of steps of the walk back
  from today (2024-10-04, day 20000). On the Profile page with the calendar, in a zone
  5 h 30 min east of UTC, one record solved today gives a current streak of 0, while the
  walk from today over the active days takes 1 step: the key of the day is the UTC date of
  its local midnight and is read back as a local date, which moves every active day one
  day back before it is compared with today. On Profile.tsx (in UTC), a record solved today
  and one dated tomorrow give a current streak of 0, while the walk takes 1 step: the loop
  compares the newest date with today.
\<close>

theorem current_streak_misses_today:
  "map_option (map_sum id (currentStreak \<circ> stats))
     (ProfileCalendar_fetchStats (fixedZone 19800000) engineSort 1728000005000
       [\<lparr>status = ''Completed'', last_solved_at = Some (Valid 1728000004000), updated_at = None\<rparr>])
     = Some (Inr 0)
   \<and> spec_currentStreak
        (windowActiveDays (fixedZone 19800000) 1728000005000
          [\<lparr>status = ''Completed'', last_solved_at = Some (Valid 1728000004000), updated_at = None\<rparr>])
        (localDay (fixedZone 19800000) 1728000005000)
     = 1
   \<and> currentStreak (Profile_fetchStats (fixedZone 0) engineSort 1728000005000
      [\<lparr>status = ''Completed'', last_solved_at = Some (Valid 1728086400010), updated_at = None\<rparr>,
       \<lparr>status = ''Completed'', last_solved_at = Some (Valid 1728000000010), updated_at = None\<rparr>])
     = 0
   \<and> spec_currentStreak
        (solvedDays (fixedZone 0)
          [\<lparr>status = ''Completed'', last_solved_at = Some (Valid 1728086400010), updated_at = None\<rparr>,
           \<lparr>status = ''Completed'', last_solved_at = Some (Valid 1728000000010), updated_at = None\<rparr>])
        (localDay (fixedZone 0) 1728000005000)
     = 1"
proof (intro conjI)
  show "map_option (map_sum id (currentStreak \<circ> stats))
     (ProfileCalendar_fetchStats (fixedZone 19800000) engineSort 1728000005000
       [\<lparr>status = ''Completed'', last_solved_at = Some (Valid 1728000004000), updated_at = None\<rparr>])
     = Some (Inr 0)"
    by (simp only: fetchStats_eq[OF regular_fixedZone])
       (simp add: calendar_eval sort_eval zone_eval)
next
  have "windowActiveDays (fixedZone 19800000) 1728000005000
      [\<lparr>status = ''Completed'', last_solved_at = Some (Valid 1728000004000), updated_at = None\<rparr>]
     = [20000]"
    by (simp add: windowActiveDays_def activeDays_def inWindow_def activityDay_def activityDate_def
        windowStartDay_def List.map_filter_def zone_eval)
  moreover have "localDay (fixedZone 19800000) 1728000005000 = 20000"
    by (simp add: zone_eval)
  moreover have "spec_currentStreak [20000] 20000 = 1"
    by (simp add: spec_currentStreak.simps)
  ultimately show "spec_currentStreak
        (windowActiveDays (fixedZone 19800000) 1728000005000
          [\<lparr>status = ''Completed'', last_solved_at = Some (Valid 1728000004000), updated_at = None\<rparr>])
        (localDay (fixedZone 19800000) 1728000005000)
     = 1"
    by (simp only:)
next
  show "currentStreak (Profile_fetchStats (fixedZone 0) engineSort 1728000005000
      [\<lparr>status = ''Completed'', last_solved_at = Some (Valid 1728086400010), updated_at = None\<rparr>,
       \<lparr>status = ''Completed'', last_solved_at = Some (Valid 1728000000010), updated_at = None\<rparr>])
     = 0"
    by (simp add: profile_eval sort_eval zone_eval)
next
  have "solvedDays (fixedZone 0)
      [\<lparr>status = ''Completed'', last_solved_at = Some (Valid 1728086400010), updated_at = None\<rparr>,
       \<lparr>status = ''Completed'', last_solved_at = Some (Valid 1728000000010), updated_at = None\<rparr>]
     = [20001, 20000]"
    by (simp add: solvedDays_def List.map_filter_def zone_eval)
  moreover have "localDay (fixedZone 0) 1728000005000 = 20000"
    by (simp add: zone_eval)
  moreover have "spec_currentStreak [20001, 20000] 20000 = 1"
    by (simp add: spec_currentStreak.simps)
  ultimately show "spec_currentStreak
        (solvedDays (fixedZone 0)
          [\<lparr>status = ''Completed'', last_solved_at = Some (Valid 1728086400010), updated_at = None\<rparr>,
           \<lparr>status = ''Completed'', last_solved_at = Some (Valid 1728000000010), updated_at = None\<rparr>])
        (localDay (fixedZone 0) 1728000005000)
     = 1"
    by (simp only:)
qed

section \<open>Malformed dates and the date a record is counted under\<close>

text \<open>
  C8. On Profile.tsx a malformed completion timestamp changes the statistics of the
  well-formed records. With today 2024-10-04 (UTC) and a record solved today, the current
  streak is 1; with a record whose \<open>last_solved_at\<close> is malformed in front of it, the
  current streak is 0: the invalid date passes the filter on \<open>last_solved_at\<close>, stays in
  \<open>uniqueDates\<close> and is compared with today. (The comparator gives 0 on this list, so
  every engine leaves it in place.) On the Profile page with the calendar the same two
  records give a current streak of 1: there the invalid date fails the range test.
\<close>

theorem profile_tsx_keeps_malformed_date:
  "currentStreak (Profile_fetchStats (fixedZone 0) engineSort 1728000005000
      [\<lparr>status = ''Completed'', last_solved_at = Some Invalid, updated_at = None\<rparr>,
       \<lparr>status = ''Completed'', last_solved_at = Some (Valid 1728000000010), updated_at = None\<rparr>])
     = 0
   \<and> currentStreak (Profile_fetchStats (fixedZone 0) engineSort 1728000005000
      [\<lparr>status = ''Completed'', last_solved_at = Some (Valid 1728000000010), updated_at = None\<rparr>])
     = 1
   \<and> map_option (map_sum id (currentStreak \<circ> stats))
       (ProfileCalendar_fetchStats (fixedZone 0) engineSort 1728000005000
         [\<lparr>status = ''Completed'', last_solved_at = Some Invalid, updated_at = None\<rparr>,
          \<lparr>status = ''Completed'', last_solved_at = Some (Valid 1728000000010), updated_at = None\<rparr>])
     = Some (Inr 1)"
proof (intro conjI)
  show "currentStreak (Profile_fetchStats (fixedZone 0) engineSort 1728000005000
      [\<lparr>status = ''Completed'', last_solved_at = Some Invalid, updated_at = None\<rparr>,
       \<lparr>status = ''Completed'', last_solved_at = Some (Valid 1728000000010), updated_at = None\<rparr>])
     = 0"
    by (simp add: profile_eval sort_eval zone_eval)
  show "currentStreak (Profile_fetchStats (fixedZone 0) engineSort 1728000005000
      [\<lparr>status = ''Completed'', last_solved_at = Some (Valid 1728000000010), updated_at = None\<rparr>])
     = 1"
    by (simp add: profile_eval sort_eval zone_eval)
  show "map_option (map_sum id (currentStreak \<circ> stats))
       (ProfileCalendar_fetchStats (fixedZone 0) engineSort 1728000005000
         [\<lparr>status = ''Completed'', last_solved_at = Some Invalid, updated_at = None\<rparr>,
          \<lparr>status = ''Completed'', last_solved_at = Some (Valid 1728000000010), updated_at = None\<rparr>])
     = Some (Inr 1)"
    by (simp only: fetchStats_eq[OF regular_fixedZone])
       (simp add: calendar_eval sort_eval zone_eval)
qed

text \<open>
  C5, as stated, fails on Profile.tsx and on the Dashboard. With today 2024-10-04 (UTC) and
  one completed record without \<open>last_solved_at\<close> that was updated today, the activity
  date of the record is today, yet both streaks of Profile.tsx and the streak of the
  Dashboard are 0: these two views never read \<open>updated_at\<close>.
\<close>

theorem profile_tsx_ignores_updated_at:
  "activeDays (fixedZone 0)
      [\<lparr>status = ''Completed'', last_solved_at = None, updated_at = Some (Valid 1728000000010)\<rparr>]
     = [20000]
   \<and> localDay (fixedZone 0) 1728000005000 = 20000
   \<and> currentStreak (Profile_fetchStats (fixedZone 0) id 1728000005000
      [\<lparr>status = ''Completed'', last_solved_at = None, updated_at = Some (Valid 1728000000010)\<rparr>])
     = 0
   \<and> longestStreak (Profile_fetchStats (fixedZone 0) id 1728000005000
      [\<lparr>status = ''Completed'', last_solved_at = None, updated_at = Some (Valid 1728000000010)\<rparr>])
     = 0
   \<and> Dashboard_streak (fixedZone 0) id 1728000005000
      [\<lparr>status = ''Completed'', last_solved_at = None, updated_at = Some (Valid 1728000000010)\<rparr>]
     = Some 0"
  by (simp add: activeDays_def activityDay_def activityDate_def Dashboard_streak_def
      profile_eval sort_eval zone_eval)

text \<open>
  C5, amended. On the Profile page with the calendar the date a record is counted under
  is its activity date: \<open>last_solved_at\<close> when present; otherwise, for a completed record,
  \<open>updated_at\<close>; otherwise none. The activity object counts every record at most once,
  under the key of that one date: the count of a key is the number of records with that
  key, and the counts add up to the number of records whose activity day is inside the
  window. On Profile.tsx and on the Dashboard a record contributes its \<open>last_solved_at\<close>
  when present and nothing otherwise: two lists with the same \<open>last_solved_at\<close> values,
  records without one left out, give the same streaks, whatever \<open>status\<close> and
  \<open>updated_at\<close> are.
\<close>

theorem activity_date_of_each_view:
  "regular z \<Longrightarrow>
   dateSource q = activityDate q
   \<and> (\<exists>r. ProfileCalendar_fetchStats z engineSort now qs = Some (Inr r)
          \<and> (\<forall>key. orZero (objGet (activityMap r) key)
                      = length (filter (\<lambda>q. activityKey z now q = Some key) qs))
          \<and> sum_list (map snd (activityMap r)) = length (filter (inWindow z now) qs))
   \<and> (List.map_filter last_solved_at qs = List.map_filter last_solved_at qs'
      \<longrightarrow> currentStreak (Profile_fetchStats z engineSort now qs)
            = currentStreak (Profile_fetchStats z engineSort now qs')
          \<and> longestStreak (Profile_fetchStats z engineSort now qs)
            = longestStreak (Profile_fetchStats z engineSort now qs')
          \<and> Dashboard_streak z engineSort now qs = Dashboard_streak z engineSort now qs')"
proof (intro conjI impI)
  assume r: "regular z"
  show "dateSource q = activityDate q" by (rule dateSource_activityDate)
  show "\<exists>r. ProfileCalendar_fetchStats z engineSort now qs = Some (Inr r)
          \<and> (\<forall>key. orZero (objGet (activityMap r) key)
                      = length (filter (\<lambda>q. activityKey z now q = Some key) qs))
          \<and> sum_list (map snd (activityMap r)) = length (filter (inWindow z now) qs)"
    by (simp add: fetchStats_eq[OF r] tally_count tally_sum count_map_filter
        length_map_filter activityKey_None orZero_simps)
next
  assume a: "List.map_filter last_solved_at qs = List.map_filter last_solved_at qs'"
  then have "profileStreaks z engineSort now qs = profileStreaks z engineSort now qs'"
    by (simp add: profileStreaks_def solvedDatesOf_def)
  then show "currentStreak (Profile_fetchStats z engineSort now qs)
            = currentStreak (Profile_fetchStats z engineSort now qs')"
    and "longestStreak (Profile_fetchStats z engineSort now qs)
            = longestStreak (Profile_fetchStats z engineSort now qs')"
    by (simp_all add: Profile_fetchStats_def Let_def case_prod_beta)
  from a show "Dashboard_streak z engineSort now qs = Dashboard_streak z engineSort now qs'"
    by (simp add: Dashboard_streak_def solvedDatesOf_def)
qed

text \<open>
  In London on 2024-10-29, a completed record without \<open>last_solved_at\<close> that was updated
  on 27 October is counted by the calendar under the key of that day, and gives Profile.tsx
  and the Dashboard what no record gives them.
\<close>

theorem activity_date_of_each_view_witness:
  "map_option (map_sum id activityMap)
     (ProfileCalendar_fetchStats Europe_London id 1730206800000
       [\<lparr>status = ''Completed'', last_solved_at = None, updated_at = Some (Valid 1730030400000)\<rparr>])
     = Some (Inr [(20022, 1)])
   \<and> currentStreak (Profile_fetchStats Europe_London id 1730206800000
       [\<lparr>status = ''Completed'', last_solved_at = None, updated_at = Some (Valid 1730030400000)\<rparr>])
     = currentStreak (Profile_fetchStats Europe_London id 1730206800000 [])
   \<and> longestStreak (Profile_fetchStats Europe_London id 1730206800000
       [\<lparr>status = ''Completed'', last_solved_at = None, updated_at = Some (Valid 1730030400000)\<rparr>])
     = longestStreak (Profile_fetchStats Europe_London id 1730206800000 [])
   \<and> Dashboard_streak Europe_London id 1730206800000
       [\<lparr>status = ''Completed'', last_solved_at = None, updated_at = Some (Valid 1730030400000)\<rparr>]
     = Dashboard_streak Europe_London id 1730206800000 []"
proof -
  let ?q = "\<lparr>status = ''Completed'', last_solved_at = None, updated_at = Some (Valid 1730030400000)\<rparr>"
  have m: "map_option (map_sum id activityMap)
     (ProfileCalendar_fetchStats Europe_London id 1730206800000 [?q]) = Some (Inr [(20022, 1)])"
    by (simp only: fetchStats_eq[OF regular_Europe_London])
       (simp add: calendar_eval sort_eval zone_eval)
  have h: "List.map_filter last_solved_at [?q] = List.map_filter last_solved_at []"
    by (simp add: List.map_filter_def)
  from activity_date_of_each_view[OF regular_Europe_London, of ?q id 1730206800000 "[?q]" "[]"] h m
  show ?thesis by blast
qed

section \<open>The calendar grid\<close>















section \<open>Under a fixed offset: the streak loops on local midnights\<close>

text \<open>
  The rest of the development is about zones without clock changes. There two local
  midnights differ by whole days, and the UTC date of a local midnight is the local date
  moved by a constant.
\<close>

lemma sortDates_Nil: "sortDates engineSort [] = []"
  by (simp add: sortDates_def consistentOrder_def stableSort_def)

lemma sortDates_parseKey_Nil_iff: "sortDates engineSort (map parseKey ks) = [] \<longleftrightarrow> ks = []"
proof -
  have "map parseKey ks = map Valid (map (\<lambda>k. k * msPerDay) ks)"
    by (simp add: parseKey_def)
  then have "sortDates engineSort (map parseKey ks) = [] \<longleftrightarrow> map (\<lambda>k. k * msPerDay) ks = []"
    by (simp only: sortDates_valid_Nil_iff)
  then show ?thesis by simp
qed

lemma descendingDays_shift:
  "descendingDays (map (\<lambda>d. d + c) ds) = map (\<lambda>d. d + c) (descendingDays ds)"
proof (rule descending_unique[symmetric])
  show "sorted_wrt (>) (map (\<lambda>d. d + c) (descendingDays ds))"
    using descendingDays_sorted[of ds] by (simp add: sorted_wrt_map)
  show "set (map (\<lambda>d. d + c) (descendingDays ds)) = set (map (\<lambda>d. d + c) ds)"
    by (simp add: set_descendingDays)
qed

lemma localDay_addDays_fixed:
  "localDay (fixedZone tz) (addDays (fixedZone tz) t n) = localDay (fixedZone tz) t + n"
proof -
  have "t + n * msPerDay + tz = (t + tz) + n * msPerDay" by simp
  then have "(t + n * msPerDay + tz) div msPerDay = ((t + tz) + n * msPerDay) div msPerDay"
    by (rule arg_cong)
  also have "\<dots> = (t + tz) div msPerDay + n"
    using msPerDay_pos by simp
  finally show ?thesis by (simp only: localDay_fixed addDays_fixed)
qed


lemma toDateString_parseDateString: "toDateString (fixedZone tz) (parseDateString
    (fixedZone tz) s) = s"
  by (cases s) (simp_all add: toDateString_def parseDateString_def localDay_localMidnight[OF
      regular_fixedZone])

lemma toDateString_expected:
  "toDateString (fixedZone tz) (Valid (addDays (fixedZone tz) (localMidnight (fixedZone tz) T) (-
      int i))) = DayString (T - int i)"
  by (simp add: toDateString_def localDay_addDays_fixed localDay_localMidnight[OF
      regular_fixedZone])

lemma diffDays_midnights:
  "diffDays (Valid (localMidnight (fixedZone tz) a)) (Valid (localMidnight (fixedZone tz) b)) =
      Some (a - b)"
proof -
  have "2 * (localMidnight (fixedZone tz) a - localMidnight (fixedZone tz) b) + msPerDay
        = (a - b) * (2 * msPerDay) + msPerDay"
    by (simp add: localMidnight_fixed algebra_simps)
  moreover have "((a - b) * (2 * msPerDay) + msPerDay) div (2 * msPerDay) = a - b"
    using msPerDay_pos by (simp add: div_pos_pos_trivial)
  ultimately have "(2 * (localMidnight (fixedZone tz) a - localMidnight (fixedZone tz) b) +
      msPerDay) div (2 * msPerDay)
                   = a - b"
    by (simp only:)
  then show ?thesis by (simp only: diffDays_def Date.case)
qed

lemma currentStreakLoop_Cons:
  "currentStreakLoop (fixedZone tz) (localMidnight (fixedZone tz) T) (parseDateString (fixedZone
      tz) s # us) i acc =
     (if s = DayString (T - int i)
      then currentStreakLoop (fixedZone tz) (localMidnight (fixedZone tz) T) us (Suc i) (Suc acc)
      else acc)"
  by (simp add: Let_def toDateString_parseDateString toDateString_expected)

lemma longestStreakLoop_Cons:
  "longestStreakLoop (Valid (localMidnight (fixedZone tz) p)) (parseDateString (fixedZone tz)
      (DayString d) # us) temp longest =
     (if p - d = 1
      then longestStreakLoop (Valid (localMidnight (fixedZone tz) d)) us (Suc temp)
          (max longest (Suc temp))
      else longestStreakLoop (Valid (localMidnight (fixedZone tz) d)) us 1 longest)"
  by (simp add: parseDateString_def diffDays_midnights)

lemma currentStreakLoop_acc:
  "currentStreakLoop z ref us i acc = acc + currentStreakLoop z ref us i 0"
proof (induction us arbitrary: i acc)
  case Nil
  show ?case by simp
next
  case (Cons u us)
  show ?case
    using Cons[of "Suc i" "Suc acc"] Cons[of "Suc i" "Suc 0"] by (simp add: Let_def)
qed

lemma longestStreakLoop_mono:
  "longest \<le> snd (longestStreakLoop prev us temp longest)
   \<and> (1 \<le> temp \<longrightarrow> 1 \<le> fst (longestStreakLoop prev us temp longest))"
proof (induction us arbitrary: prev temp longest)
  case Nil
  show ?case by simp
next
  case (Cons u us)
  show ?case
    using Cons[of "max longest (Suc temp)" u "Suc temp"] Cons[of longest u 1]
    by (auto simp: max_def split: if_splits)
qed

lemma longestStreakLoop_lower:
  assumes "1 \<le> temp" and "temp \<le> max longest 1"
  shows "temp \<le> loopResult (longestStreakLoop prev us temp longest)"
proof (cases us)
  case Nil
  then show ?thesis by (simp add: loopResult_def)
next
  case (Cons u us')
  show ?thesis
  proof (cases "diffDays prev u = Some 1")
    case True
    have "max longest (Suc temp) \<le> snd (longestStreakLoop u us' (Suc temp) (max
        longest (Suc temp)))"
      using longestStreakLoop_mono by blast
    then show ?thesis using True Cons by (simp add: loopResult_def le_max_iff_disj)
  next
    case False
    have "longest \<le> snd (longestStreakLoop u us' 1 longest)"
      and "1 \<le> fst (longestStreakLoop u us' 1 longest)"
      using longestStreakLoop_mono[of longest u us' 1] by simp_all
    then show ?thesis using False Cons assms by (auto simp: loopResult_def le_max_iff_disj)
  qed
qed

text \<open>The current streak is part of the first run that the longest-streak loop sees.\<close>

lemma current_le_longest_loop:
  assumes "1 \<le> temp" and "temp \<le> max longest 1"
  shows "temp + currentStreakLoop (fixedZone tz) (localMidnight (fixedZone tz) T) (map
      (parseDateString (fixedZone tz)) ss) i 0
         \<le> loopResult (longestStreakLoop (Valid (localMidnight (fixedZone tz) (T - int i + 1)))
                          (map (parseDateString (fixedZone tz)) ss) temp longest)"
  using assms
proof (induction ss arbitrary: i temp longest)
  case Nil
  then show ?case by (simp add: loopResult_def)
next
  case (Cons s ss)
  show ?case
  proof (cases "s = DayString (T - int i)")
    case True
    have "Suc temp + currentStreakLoop (fixedZone tz) (localMidnight (fixedZone tz) T) (map
        (parseDateString (fixedZone tz)) ss) (Suc i) 0
          \<le> loopResult (longestStreakLoop (Valid (localMidnight (fixedZone tz) (T -
              int (Suc i) + 1)))
                    (map (parseDateString (fixedZone tz)) ss) (Suc temp) (max longest (Suc temp)))"
      by (rule Cons.IH) simp_all
    moreover have "T - int (Suc i) + 1 = T - int i" by simp
    moreover have "currentStreakLoop (fixedZone tz) (localMidnight (fixedZone tz) T) (map
        (parseDateString (fixedZone tz)) ss) (Suc i) (Suc 0)
        = Suc (currentStreakLoop (fixedZone tz) (localMidnight (fixedZone tz) T) (map
            (parseDateString (fixedZone tz)) ss) (Suc i) 0)"
      using currentStreakLoop_acc[of "fixedZone tz" _ _ "Suc i" "Suc 0"] by simp
    ultimately show ?thesis
      using True
      by (simp add: currentStreakLoop_Cons longestStreakLoop_Cons
               del: currentStreakLoop.simps longestStreakLoop.simps)
  next
    case False
    then show ?thesis
      using longestStreakLoop_lower[OF Cons.prems]
      by (simp add: currentStreakLoop_Cons del: currentStreakLoop.simps longestStreakLoop.simps)
  qed
qed

lemma calendarLoops_le:
  "fst (calendarLoops (fixedZone tz) (localMidnight (fixedZone tz) T) (map (parseDateString
      (fixedZone tz)) ss))
     \<le> snd (calendarLoops (fixedZone tz) (localMidnight (fixedZone tz) T) (map (parseDateString
         (fixedZone tz)) ss))"
proof (cases ss)
  case Nil
  then show ?thesis by (simp add: calendarLoops_def)
next
  case (Cons s ss')
  show ?thesis
  proof (cases "s = DayString T")
    case True
    have "1 + currentStreakLoop (fixedZone tz) (localMidnight (fixedZone tz) T) (map
        (parseDateString (fixedZone tz)) ss') (Suc 0) 0
          \<le> loopResult (longestStreakLoop (Valid (localMidnight (fixedZone tz) (T -
              int (Suc 0) + 1)))
                    (map (parseDateString (fixedZone tz)) ss') 1 0)"
      by (rule current_le_longest_loop) simp_all
    then have "Suc (currentStreakLoop (fixedZone tz) (localMidnight (fixedZone tz) T) (map
        (parseDateString (fixedZone tz)) ss') (Suc 0) 0)
          \<le> loopResult (longestStreakLoop (parseDateString (fixedZone tz) s)
                    (map (parseDateString (fixedZone tz)) ss') (Suc 0) 0)"
      using True by (simp add: parseDateString_def)
    moreover have "currentStreakLoop (fixedZone tz) (localMidnight (fixedZone tz) T) (map
        (parseDateString (fixedZone tz)) ss') (Suc 0) (Suc 0)
        = Suc (currentStreakLoop (fixedZone tz) (localMidnight (fixedZone tz) T) (map
            (parseDateString (fixedZone tz)) ss') (Suc 0) 0)"
      using currentStreakLoop_acc[of "fixedZone tz" _ _ "Suc 0" "Suc 0"] by simp
    ultimately show ?thesis
      using True Cons
      by (simp add: calendarLoops_def currentStreakLoop_Cons case_prod_beta loopResult_def
               del: currentStreakLoop.simps)
  next
    case False
    then show ?thesis
      using Cons
      by (simp add: calendarLoops_def currentStreakLoop_Cons case_prod_beta
               del: currentStreakLoop.simps)
  qed
qed

lemma calendarStreaks_le:
  "fst (calendarStreaks (fixedZone tz) engineSort (setHours0 (fixedZone tz) now) activity)
     \<le> snd (calendarStreaks (fixedZone tz) engineSort (setHours0 (fixedZone tz) now) activity)"
  by (simp add: calendarStreaks_def Let_def setHours0_def uniqueDatesOf_def calendarLoops_le)


section \<open>The same for the loops of Profile.tsx\<close>

lemma withinOneDay_midnights:
  "withinOneDay (Valid (localMidnight (fixedZone tz) a)) (Valid (localMidnight (fixedZone tz) b)) \<longleftrightarrow>
      \<bar>a - b\<bar> \<le> 1"
proof -
  have "localMidnight (fixedZone tz) a - localMidnight (fixedZone tz) b = (a - b) * msPerDay"
    by (simp add: localMidnight_fixed algebra_simps)
  moreover have "\<bar>(a - b) * msPerDay\<bar> \<le> msPerDay \<longleftrightarrow> \<bar>a - b\<bar> \<le> 1"
    using msPerDay_pos by (simp add: abs_mult)
  ultimately show ?thesis by (simp add: withinOneDay_def)
qed

lemma profileCurrentLoop_Cons:
  "profileCurrentLoop (fixedZone tz) (localMidnight (fixedZone tz) T) (parseDateString (fixedZone
      tz) s # us) i c t =
     (if s = DayString (T - int i)
      then profileCurrentLoop (fixedZone tz) (localMidnight (fixedZone tz) T) us
          (Suc i) (Suc c) (Suc t)
      else (c, t))"
  by (simp add: Let_def toDateString_parseDateString toDateString_expectedDate[OF
      regular_fixedZone])

lemma profileLongestLoop_Cons:
  "profileLongestLoop (Valid (localMidnight (fixedZone tz) p)) (parseDateString (fixedZone tz)
      (DayString d) # us) temp longest =
     (if \<bar>p - d\<bar> \<le> 1
      then profileLongestLoop (Valid (localMidnight (fixedZone tz) d)) us (Suc
          temp) (max longest (Suc temp))
      else profileLongestLoop (Valid (localMidnight (fixedZone tz) d)) us 1 longest)"
  by (simp add: parseDateString_def withinOneDay_midnights)

lemma profileLongestLoop_mono:
  "longest \<le> snd (profileLongestLoop prev us temp longest)
   \<and> (1 \<le> temp \<longrightarrow> 1 \<le> fst (profileLongestLoop prev us temp longest))"
proof (induction us arbitrary: prev temp longest)
  case Nil
  show ?case by simp
next
  case (Cons u us)
  show ?case
    using Cons[of "max longest (Suc temp)" u "Suc temp"] Cons[of longest u 1]
    by (auto simp: max_def split: if_splits)
qed

lemma profileLongestLoop_lower:
  assumes "1 \<le> temp" and "temp \<le> max longest 1"
  shows "temp \<le> loopResult (profileLongestLoop prev us temp longest)"
proof (cases us)
  case Nil
  then show ?thesis by (simp add: loopResult_def)
next
  case (Cons u us')
  show ?thesis
  proof (cases "withinOneDay prev u")
    case True
    have "max longest (Suc temp) \<le> snd (profileLongestLoop u us' (Suc temp) (max
        longest (Suc temp)))"
      using profileLongestLoop_mono by blast
    then show ?thesis using True Cons by (simp add: loopResult_def le_max_iff_disj)
  next
    case False
    have "longest \<le> snd (profileLongestLoop u us' 1 longest)"
      and "1 \<le> fst (profileLongestLoop u us' 1 longest)"
      using profileLongestLoop_mono[of longest u us' 1] by simp_all
    then show ?thesis using False Cons assms by (auto simp: loopResult_def le_max_iff_disj)
  qed
qed

lemma profile_current_le_longest_loop:
  assumes "1 \<le> temp" and "temp \<le> max longest 1"
  shows "temp + fst (profileCurrentLoop (fixedZone tz) (localMidnight (fixedZone tz) T) (map
      (parseDateString (fixedZone tz)) ss) i 0 0)
         \<le> loopResult (profileLongestLoop (Valid (localMidnight (fixedZone tz) (T - int i + 1)))
                          (map (parseDateString (fixedZone tz)) ss) temp longest)"
  using assms
proof (induction ss arbitrary: i temp longest)
  case Nil
  then show ?case by (simp add: loopResult_def)
next
  case (Cons s ss)
  show ?case
  proof (cases "s = DayString (T - int i)")
    case True
    have "Suc temp + fst (profileCurrentLoop (fixedZone tz) (localMidnight (fixedZone tz) T) (map
        (parseDateString (fixedZone tz)) ss) (Suc i) 0 0)
          \<le> loopResult (profileLongestLoop (Valid (localMidnight (fixedZone tz) (T
              - int (Suc i) + 1)))
                    (map (parseDateString (fixedZone tz)) ss) (Suc temp) (max longest (Suc temp)))"
      by (rule Cons.IH) simp_all
    moreover have "T - int (Suc i) + 1 = T - int i" by simp
    moreover have "fst (profileCurrentLoop (fixedZone tz) (localMidnight (fixedZone tz) T) (map
        (parseDateString (fixedZone tz)) ss) (Suc i) (Suc 0) (Suc 0))
        = Suc (fst (profileCurrentLoop (fixedZone tz) (localMidnight (fixedZone tz) T) (map
            (parseDateString (fixedZone tz)) ss) (Suc i) 0 0))"
      using profileCurrentLoop_acc[of "fixedZone tz" _ _ "Suc i" "Suc 0" "Suc 0"] by simp
    ultimately show ?thesis
      using True
      by (simp add: profileCurrentLoop_Cons profileLongestLoop_Cons
               del: profileCurrentLoop.simps profileLongestLoop.simps)
  next
    case False
    then show ?thesis
      using profileLongestLoop_lower[OF Cons.prems]
      by (simp add: profileCurrentLoop_Cons del: profileCurrentLoop.simps profileLongestLoop.simps)
  qed
qed

lemma profileLoops_le:
  "fst (profileLoops (fixedZone tz) (localMidnight (fixedZone tz) T) (map (parseDateString
      (fixedZone tz)) ss))
     \<le> snd (profileLoops (fixedZone tz) (localMidnight (fixedZone tz) T) (map (parseDateString
         (fixedZone tz)) ss))"
proof (cases ss)
  case Nil
  then show ?thesis by (simp add: profileLoops_def)
next
  case (Cons s ss')
  show ?thesis
  proof (cases "s = DayString T")
    case True
    have "1 + fst (profileCurrentLoop (fixedZone tz) (localMidnight (fixedZone tz) T) (map
        (parseDateString (fixedZone tz)) ss') (Suc 0) 0 0)
          \<le> loopResult (profileLongestLoop (Valid (localMidnight (fixedZone tz) (T
              - int (Suc 0) + 1)))
                    (map (parseDateString (fixedZone tz)) ss') 1 0)"
      by (rule profile_current_le_longest_loop) simp_all
    then have "Suc (fst (profileCurrentLoop (fixedZone tz) (localMidnight (fixedZone tz) T) (map
        (parseDateString (fixedZone tz)) ss') (Suc 0) 0 0))
          \<le> loopResult (profileLongestLoop (parseDateString (fixedZone tz) s)
                    (map (parseDateString (fixedZone tz)) ss') (Suc 0) 0)"
      using True by (simp add: parseDateString_def)
    moreover have "fst (profileCurrentLoop (fixedZone tz) (localMidnight (fixedZone tz) T) (map
        (parseDateString (fixedZone tz)) ss') (Suc 0) (Suc 0) (Suc 0))
        = Suc (fst (profileCurrentLoop (fixedZone tz) (localMidnight (fixedZone tz) T) (map
            (parseDateString (fixedZone tz)) ss') (Suc 0) 0 0))"
      using profileCurrentLoop_acc[of "fixedZone tz" _ _ "Suc 0" "Suc 0" "Suc 0"] by simp
    ultimately show ?thesis
      using True Cons
      by (simp add: profileLoops_def profileCurrentLoop_Cons case_prod_beta loopResult_def
               del: profileCurrentLoop.simps)
  next
    case False
    then show ?thesis
      using Cons
      by (simp add: profileLoops_def profileCurrentLoop_Cons case_prod_beta
               del: profileCurrentLoop.simps)
  qed
qed

lemma profileStreaks_le:
  "fst (profileStreaks (fixedZone tz) engineSort now qs) \<le> snd (profileStreaks (fixedZone tz)
      engineSort now qs)"
  by (simp add: profileStreaks_def Let_def setHours0_def uniqueDatesOf_def profileLoops_le)


section \<open>The longest streak is the longest run of active days\<close>

lemma runLengths_nonempty: "runLengths (d # ds) \<noteq> []"
  by (induction ds arbitrary: d) (auto split: list.splits)

lemma runLengths_positive: "r \<in> set (runLengths ds) \<Longrightarrow> 1 \<le> r"
  by (induction ds arbitrary: r rule: runLengths.induct) (auto split: list.splits if_splits)

lemma runLengths_shift: "runLengths (map (\<lambda>d. d + c) ds) = runLengths ds"
  by (induction ds rule: runLengths.induct) (auto split: list.splits)

lemma longestStreakLoop_Cons_valid:
  "longestStreakLoop (Valid (localMidnight (fixedZone tz) p)) (Valid (localMidnight (fixedZone tz)
      d) # us) temp longest =
     (if p - d = 1
      then longestStreakLoop (Valid (localMidnight (fixedZone tz) d)) us (Suc temp)
          (max longest (Suc temp))
      else longestStreakLoop (Valid (localMidnight (fixedZone tz) d)) us 1 longest)"
  by (simp add: diffDays_midnights)

lemma profileLongestLoop_Cons_valid:
  "profileLongestLoop (Valid (localMidnight (fixedZone tz) p)) (Valid (localMidnight (fixedZone tz)
      d) # us) temp longest =
     (if \<bar>p - d\<bar> \<le> 1
      then profileLongestLoop (Valid (localMidnight (fixedZone tz) d)) us (Suc
          temp) (max longest (Suc temp))
      else profileLongestLoop (Valid (localMidnight (fixedZone tz) d)) us 1 longest)"
  by (simp add: withinOneDay_midnights)

lemma longestStreakLoop_runs:
  assumes "1 \<le> temp" and "temp \<le> max longest 1" and "runLengths (p # ds) = r # rs"
  shows "loopResult (longestStreakLoop (Valid (localMidnight (fixedZone tz) p))
                       (map (\<lambda>d. Valid (localMidnight (fixedZone tz) d)) ds) temp longest)
         = max longest (max (r + temp - 1) (foldr max rs 0))"
  using assms
proof (induction ds arbitrary: p temp longest r rs)
  case Nil
  then show ?case by (auto simp: loopResult_def)
next
  case (Cons d ds)
  obtain r' rs' where rl: "runLengths (d # ds) = r' # rs'"
    using runLengths_nonempty[of d ds] by (cases "runLengths (d # ds)") auto
  have r'pos: "1 \<le> r'"
    using runLengths_positive[of r' "d # ds"] rl by simp
  show ?case
  proof (cases "p - d = 1")
    case True
    have "loopResult (longestStreakLoop (Valid (localMidnight (fixedZone tz) d))
                       (map (\<lambda>d. Valid (localMidnight (fixedZone tz) d)) ds) (Suc temp) (max
                           longest (Suc temp)))
          = max (max longest (Suc temp)) (max (r' + Suc temp - 1) (foldr max rs' 0))"
      by (rule Cons.IH) (simp_all add: rl)
    moreover have "r = Suc r'" and "rs = rs'"
      using Cons.prems(3) rl True by simp_all
    ultimately show ?thesis
      using True r'pos
      by (simp add: longestStreakLoop_Cons_valid del: longestStreakLoop.simps)
  next
    case False
    have "loopResult (longestStreakLoop (Valid (localMidnight (fixedZone tz) d))
                       (map (\<lambda>d. Valid (localMidnight (fixedZone tz) d)) ds) 1 longest)
          = max longest (max (r' + 1 - 1) (foldr max rs' 0))"
      by (rule Cons.IH) (simp_all add: rl)
    moreover have "r = 1" and "rs = r' # rs'"
      using Cons.prems(3) rl False by simp_all
    ultimately show ?thesis
      using False r'pos Cons.prems(1,2)
      by (simp add: longestStreakLoop_Cons_valid del: longestStreakLoop.simps)
  qed
qed

lemma profileLongestLoop_runs:
  assumes "1 \<le> temp" and "temp \<le> max longest 1" and "runLengths (p # ds) = r # rs"
    and "sorted_wrt (>) (p # ds)"
  shows "loopResult (profileLongestLoop (Valid (localMidnight (fixedZone tz) p))
                       (map (\<lambda>d. Valid (localMidnight (fixedZone tz) d)) ds) temp longest)
         = max longest (max (r + temp - 1) (foldr max rs 0))"
  using assms
proof (induction ds arbitrary: p temp longest r rs)
  case Nil
  then show ?case by (auto simp: loopResult_def)
next
  case (Cons d ds)
  obtain r' rs' where rl: "runLengths (d # ds) = r' # rs'"
    using runLengths_nonempty[of d ds] by (cases "runLengths (d # ds)") auto
  have r'pos: "1 \<le> r'"
    using runLengths_positive[of r' "d # ds"] rl by simp
  have gt: "d < p" and srt: "sorted_wrt (>) (d # ds)"
    using Cons.prems(4) by simp_all
  then have abs: "\<bar>p - d\<bar> \<le> 1 \<longleftrightarrow> p - d = 1" by linarith
  show ?case
  proof (cases "p - d = 1")
    case True
    have "loopResult (profileLongestLoop (Valid (localMidnight (fixedZone tz) d))
                       (map (\<lambda>d. Valid (localMidnight (fixedZone tz) d)) ds) (Suc temp) (max
                           longest (Suc temp)))
          = max (max longest (Suc temp)) (max (r' + Suc temp - 1) (foldr max rs' 0))"
      using srt by (intro Cons.IH) (simp_all add: rl)
    moreover have "r = Suc r'" and "rs = rs'"
      using Cons.prems(3) rl True by simp_all
    ultimately show ?thesis
      using True r'pos
      by (simp add: profileLongestLoop_Cons_valid abs del: profileLongestLoop.simps)
  next
    case False
    have "loopResult (profileLongestLoop (Valid (localMidnight (fixedZone tz) d))
                       (map (\<lambda>d. Valid (localMidnight (fixedZone tz) d)) ds) 1 longest)
          = max longest (max (r' + 1 - 1) (foldr max rs' 0))"
      using srt by (intro Cons.IH) (simp_all add: rl)
    moreover have "r = 1" and "rs = r' # rs'"
      using Cons.prems(3) rl False by simp_all
    ultimately show ?thesis
      using False r'pos Cons.prems(1,2)
      by (simp add: profileLongestLoop_Cons_valid abs del: profileLongestLoop.simps)
  qed
qed

lemma calendarLoops_longest:
  "zs \<noteq> [] \<Longrightarrow>
   snd (calendarLoops (fixedZone tz) today (map (\<lambda>d. Valid (localMidnight (fixedZone tz) d)) zs))
     = foldr max (runLengths zs) 0"
proof (cases zs)
  case Nil
  assume "zs \<noteq> []"
  with Nil show ?thesis by simp
next
  case (Cons p ds)
  obtain r rs where rl: "runLengths (p # ds) = r # rs"
    using runLengths_nonempty[of p ds] by (cases "runLengths (p # ds)") auto
  have "loopResult (longestStreakLoop (Valid (localMidnight (fixedZone tz) p))
                       (map (\<lambda>d. Valid (localMidnight (fixedZone tz) d)) ds) 1 0)
        = max 0 (max (r + 1 - 1) (foldr max rs 0))"
    by (rule longestStreakLoop_runs) (simp_all add: rl)
  then show ?thesis
    using Cons rl by (simp add: calendarLoops_def case_prod_beta loopResult_def)
qed

lemma profileLoops_longest:
  "zs \<noteq> [] \<Longrightarrow> sorted_wrt (>) zs \<Longrightarrow>
   snd (profileLoops (fixedZone tz) today (map (\<lambda>d. Valid (localMidnight (fixedZone tz) d)) zs))
     = foldr max (runLengths zs) 0"
proof (cases zs)
  case Nil
  assume "zs \<noteq> []"
  with Nil show ?thesis by simp
next
  case (Cons p ds)
  assume "sorted_wrt (>) zs"
  obtain r rs where rl: "runLengths (p # ds) = r # rs"
    using runLengths_nonempty[of p ds] by (cases "runLengths (p # ds)") auto
  have "loopResult (profileLongestLoop (Valid (localMidnight (fixedZone tz) p))
                       (map (\<lambda>d. Valid (localMidnight (fixedZone tz) d)) ds) 1 0)
        = max 0 (max (r + 1 - 1) (foldr max rs 0))"
    using \<open>sorted_wrt (>) zs\<close> Cons by (intro profileLongestLoop_runs) (simp_all add: rl)
  then show ?thesis
    using Cons rl by (simp add: profileLoops_def case_prod_beta loopResult_def)
qed

lemma fst_set_objSet: "fst ` set (objSet a k v) = insert k (fst ` set a)"
  by (induction a k v rule: objSet.induct) auto

lemma fst_set_tally: "fst ` set (tally a ks) = fst ` set a \<union> set ks"
  by (induction ks rule: rev_induct) (simp add: tally_def, simp add: tally_snoc fst_set_objSet)

lemma localMidnight_div: "localMidnight (fixedZone tz) d div msPerDay = d + (- tz) div msPerDay"
proof -
  have ne: "msPerDay \<noteq> 0" using msPerDay_pos by simp
  have "(- tz + d * msPerDay) div msPerDay = d + (- tz) div msPerDay"
    by (rule div_mult_self1[OF ne])
  moreover have "localMidnight (fixedZone tz) d = - tz + d * msPerDay"
    by (simp add: localMidnight_fixed)
  ultimately show ?thesis by (simp only:)
qed

lemma localDay_parseKey: "localDay (fixedZone tz) (k * msPerDay) = k + tz div msPerDay"
proof -
  have "k * msPerDay + tz = tz + k * msPerDay" by simp
  then show ?thesis using msPerDay_pos by (simp add: localDay_fixed)
qed

lemma activityKeys_eq:
  "List.map_filter (activityKey (fixedZone tz) now) qs
     = map (\<lambda>d. localMidnight (fixedZone tz) d div msPerDay) (windowActiveDays
         (fixedZone tz) now qs)"
proof (induction qs)
  case Nil
  show ?case by (simp add: windowActiveDays_def activeDays_def)
next
  case (Cons q qs)
  show ?case
  proof (cases "inWindow (fixedZone tz) now q")
    case True
    then obtain d where d: "activityDay (fixedZone tz) q = Some d"
      by (auto simp: inWindow_def split: option.splits)
    with True have "activityKey (fixedZone tz) now q = Some (localMidnight
        (fixedZone tz) d div msPerDay)"
      by (simp add: activityKey_def dayKey_def)
    with True d Cons show ?thesis
      by (simp add: windowActiveDays_def activeDays_def)
  next
    case False
    then have "activityKey (fixedZone tz) now q = None"
      by (simp add: activityKey_def)
    with False Cons show ?thesis
      by (simp add: windowActiveDays_def activeDays_def)
  qed
qed

text \<open>
  The days of \<open>uniqueDates\<close> are the active days of the window moved by a constant number
  of days: by 0 when the offset from UTC is a whole number of days, and by -1 otherwise.
\<close>

lemma calendar_uniqueDates:
  "uniqueDatesOf (fixedZone tz) (sortDates engineSort (map parseKey
       (map fst (tally [] (List.map_filter (activityKey (fixedZone tz) now) qs)))))
   = map (\<lambda>d. Valid (localMidnight (fixedZone tz) d))
       (map (\<lambda>d. d + ((- tz) div msPerDay + tz div msPerDay))
          (descendingDays (windowActiveDays (fixedZone tz) now qs)))"
proof -
  let ?W = "windowActiveDays (fixedZone tz) now qs"
  let ?act = "tally [] (List.map_filter (activityKey (fixedZone tz) now) qs)"
  let ?c = "(- tz) div msPerDay + tz div msPerDay"
  have "map parseKey (map fst ?act) = map Valid (map (\<lambda>k. k * msPerDay) (map fst ?act))"
    by (simp add: parseKey_def)
  then have "uniqueDatesOf (fixedZone tz) (sortDates engineSort (map parseKey (map fst ?act)))
        = map (\<lambda>d. Valid (localMidnight (fixedZone tz) d))
            (descendingDays (map (localDay (fixedZone tz)) (map (\<lambda>k. k * msPerDay)
                (map fst ?act))))"
    by (simp only: uniqueDates_eq[OF regular_fixedZone])
  moreover have "set (map (localDay (fixedZone tz)) (map (\<lambda>k. k * msPerDay) (map fst ?act)))
        = set (map (\<lambda>d. d + ?c) ?W)"
  proof -
    have "set (map (localDay (fixedZone tz)) (map (\<lambda>k. k * msPerDay) (map fst ?act)))
          = (\<lambda>k. k + tz div msPerDay) ` fst ` set ?act"
      by (simp add: image_image localDay_parseKey)
    also have "fst ` set ?act = (\<lambda>d. d + (- tz) div msPerDay) ` set ?W"
      by (simp add: fst_set_tally activityKeys_eq localMidnight_div)
    finally show ?thesis by (simp add: image_image add.assoc)
  qed
  ultimately show ?thesis
    by (simp only: descendingDays_cong[OF \<open>set _ = set _\<close>] descendingDays_shift)
qed

lemma calendarStreaks_longest:
  "snd (calendarStreaks (fixedZone tz) engineSort today (tally [] (List.map_filter (activityKey
      (fixedZone tz) now) qs)))
     = spec_longestStreak (windowActiveDays (fixedZone tz) now qs)"
proof (cases "windowActiveDays (fixedZone tz) now qs = []")
  case True
  then show ?thesis
    by (simp add: calendarStreaks_def activityKeys_eq tally_def sortDates_Nil spec_longestStreak_def
        descendingDays_def)
next
  case False
  let ?act = "tally [] (List.map_filter (activityKey (fixedZone tz) now) qs)"
  have "fst ` set ?act \<noteq> {}"
    using False by (simp add: fst_set_tally activityKeys_eq)
  then have "?act \<noteq> []" by auto
  then have ne: "sortDates engineSort (map parseKey (map fst ?act)) \<noteq> []"
    by (simp only: sortDates_parseKey_Nil_iff) simp
  have "map (\<lambda>d. d + ((- tz) div msPerDay + tz div msPerDay))
          (descendingDays (windowActiveDays (fixedZone tz) now qs)) \<noteq> []"
    using False by (simp add: descendingDays_Nil_iff)
  then have "snd (calendarLoops (fixedZone tz) today (map (\<lambda>d. Valid (localMidnight
      (fixedZone tz) d))
                    (map (\<lambda>d. d + ((- tz) div msPerDay + tz div msPerDay))
                       (descendingDays (windowActiveDays (fixedZone tz) now qs)))))
        = foldr max (runLengths (map (\<lambda>d. d + ((- tz) div msPerDay + tz div msPerDay))
                       (descendingDays (windowActiveDays (fixedZone tz) now qs)))) 0"
    by (rule calendarLoops_longest)
  then have "snd (calendarLoops (fixedZone tz) today (uniqueDatesOf (fixedZone tz) (sortDates
      engineSort (map parseKey (map fst ?act)))))
        = foldr max (runLengths (map (\<lambda>d. d + ((- tz) div msPerDay + tz div msPerDay))
                       (descendingDays (windowActiveDays (fixedZone tz) now qs)))) 0"
    by (simp only: calendar_uniqueDates)
  then show ?thesis
    using ne by (simp add: calendarStreaks_def Let_def runLengths_shift spec_longestStreak_def)
qed

lemma profileStreaks_longest:
  assumes "\<forall>q\<in>set qs. last_solved_at q \<noteq> Some Invalid"
  shows "snd (profileStreaks (fixedZone tz) engineSort now qs) = spec_longestStreak (solvedDays
      (fixedZone tz) qs)"
proof -
  obtain ts where ts: "List.map_filter last_solved_at qs = map Valid ts"
    "solvedDays (fixedZone tz) qs = map (localDay (fixedZone tz)) ts"
    using valid_solved_dates[OF assms] by blast
  show ?thesis
  proof (cases "ts = []")
    case True
    with ts show ?thesis
      by (simp add: profileStreaks_def solvedDatesOf_def sortDates_Nil spec_longestStreak_def
          descendingDays_def)
  next
    case False
    then have ne: "sortDates engineSort (map Valid ts) \<noteq> []" by (simp add: sortDates_valid_Nil_iff)
    have "descendingDays (map (localDay (fixedZone tz)) ts) \<noteq> []"
      using False by (simp add: descendingDays_Nil_iff)
    then have "snd (profileLoops (fixedZone tz) (setHours0 (fixedZone tz) now)
                      (map (\<lambda>d. Valid (localMidnight (fixedZone tz) d)) (descendingDays (map
                          (localDay (fixedZone tz)) ts))))
        = foldr max (runLengths (descendingDays (map (localDay (fixedZone tz)) ts))) 0"
      by (rule profileLoops_longest) (rule descendingDays_sorted)
    then have "snd (profileLoops (fixedZone tz) (setHours0 (fixedZone tz) now) (uniqueDatesOf
        (fixedZone tz) (sortDates engineSort (map Valid ts))))
        = foldr max (runLengths (descendingDays (map (localDay (fixedZone tz)) ts))) 0"
      by (simp only: uniqueDates_eq[OF regular_fixedZone])
    then show ?thesis
      using ne ts by (simp add: profileStreaks_def solvedDatesOf_def Let_def spec_longestStreak_def)
  qed
qed


lemma currentStreakLoop_Cons_valid:
  "currentStreakLoop (fixedZone tz) (localMidnight (fixedZone tz) T) (Valid (localMidnight
      (fixedZone tz) z) # us) i acc =
     (if z = T - int i
      then currentStreakLoop (fixedZone tz) (localMidnight (fixedZone tz) T) us (Suc i) (Suc acc)
      else acc)"
  by (simp add: Let_def toDateString_def toDateString_expected localDay_localMidnight[OF
      regular_fixedZone]
      localDay_addDays_fixed)

lemma currentStreakLoop_is_walk:
  "sorted_wrt (>) zs \<Longrightarrow> \<forall>z\<in>set zs. z \<le> T - int i \<Longrightarrow>
   currentStreakLoop (fixedZone tz) (localMidnight (fixedZone tz) T) (map (\<lambda>d. Valid (localMidnight
       (fixedZone tz) d)) zs) i 0
     = spec_currentStreak zs (T - int i)"
proof (induction zs arbitrary: i)
  case Nil
  show ?case by (simp add: spec_currentStreak.simps[of "[]"])
next
  case (Cons z zs)
  show ?case
  proof (cases "z = T - int i")
    case True
    have e: "T - int (Suc i) = T - int i - 1" by simp
    have "currentStreakLoop (fixedZone tz) (localMidnight (fixedZone tz) T) (map (\<lambda>d. Valid
        (localMidnight (fixedZone tz) d)) zs) (Suc i) 0
          = spec_currentStreak zs (T - int (Suc i))"
      using Cons.prems True by (intro Cons.IH) auto
    then have ih: "currentStreakLoop (fixedZone tz) (localMidnight (fixedZone tz) T)
                     (map (\<lambda>d. Valid (localMidnight (fixedZone tz) d)) zs) (Suc i) 0
          = spec_currentStreak zs (T - int i - 1)"
      by (simp only: e)
    have tl: "spec_currentStreak (z # zs) (T - int i - 1) = spec_currentStreak zs (T - int i - 1)"
      using True by (intro spec_currentStreak_cong) auto
    have acc: "currentStreakLoop (fixedZone tz) (localMidnight (fixedZone tz) T)
                     (map (\<lambda>d. Valid (localMidnight (fixedZone tz) d)) zs) (Suc i) (Suc 0)
        = Suc (currentStreakLoop (fixedZone tz) (localMidnight (fixedZone tz) T)
                 (map (\<lambda>d. Valid (localMidnight (fixedZone tz) d)) zs) (Suc i) 0)"
      using currentStreakLoop_acc[of "fixedZone tz" _ _ "Suc i" "Suc 0"] by simp
    have "currentStreakLoop (fixedZone tz) (localMidnight (fixedZone tz) T)
            (map (\<lambda>d. Valid (localMidnight (fixedZone tz) d)) (z # zs)) i 0
          = Suc (spec_currentStreak zs (T - int i - 1))"
      using True by (simp add: currentStreakLoop_Cons_valid acc ih del: currentStreakLoop.simps)
    moreover have "spec_currentStreak (z # zs) (T - int i)
          = Suc (spec_currentStreak (z # zs) (T - int i - 1))"
      using True by (subst spec_currentStreak.simps) simp
    ultimately show ?thesis by (simp only: tl)
  next
    case False
    with Cons.prems have "T - int i \<notin> set (z # zs)" by auto
    with False show ?thesis
      by (simp add: currentStreakLoop_Cons_valid spec_currentStreak.simps[of "z # zs" "T - int i"]
               del: currentStreakLoop.simps)
  qed
qed

lemma windowActiveDays_le: "d \<in> set (windowActiveDays (fixedZone tz) now qs) \<Longrightarrow> d \<le> localDay
    (fixedZone tz) now"
  by (induction qs)
     (auto simp: windowActiveDays_def activeDays_def inWindow_def split: option.splits if_splits)

text \<open>
  On the Profile page with the calendar the current streak is that walk when the host's
  offset from UTC is a whole number of days (in particular in UTC itself).
\<close>

lemma calendar_current_streak_utc:
  assumes "msPerDay dvd tz"
  shows "fst (calendarStreaks (fixedZone tz) engineSort (setHours0 (fixedZone tz) now)
                (tally [] (List.map_filter (activityKey (fixedZone tz) now) qs)))
         = spec_currentStreak (windowActiveDays (fixedZone tz) now qs) (localDay
             (fixedZone tz) now)"
proof (cases "windowActiveDays (fixedZone tz) now qs = []")
  case True
  then show ?thesis
    by (simp add: calendarStreaks_def activityKeys_eq tally_def sortDates_Nil
        spec_currentStreak.simps[of "[]"])
next
  case False
  let ?act = "tally [] (List.map_filter (activityKey (fixedZone tz) now) qs)"
  let ?W = "windowActiveDays (fixedZone tz) now qs"
  have "fst ` set ?act \<noteq> {}"
    using False by (simp add: fst_set_tally activityKeys_eq)
  then have "?act \<noteq> []" by auto
  then have ne: "sortDates engineSort (map parseKey (map fst ?act)) \<noteq> []"
    by (simp only: sortDates_parseKey_Nil_iff) simp
  have "(- tz) div msPerDay = - (tz div msPerDay)"
    using assms by (rule dvd_neg_div)
  then have "map (\<lambda>d. d + ((- tz) div msPerDay + tz div msPerDay)) (descendingDays ?W)
             = descendingDays ?W"
    by simp
  then have u: "uniqueDatesOf (fixedZone tz) (sortDates engineSort (map parseKey (map fst ?act)))
                = map (\<lambda>d. Valid (localMidnight (fixedZone tz) d)) (descendingDays ?W)"
    by (simp only: calendar_uniqueDates)
  have "currentStreakLoop (fixedZone tz) (localMidnight (fixedZone tz) (localDay
      (fixedZone tz) now))
          (map (\<lambda>d. Valid (localMidnight (fixedZone tz) d)) (descendingDays ?W)) 0 0
        = spec_currentStreak (descendingDays ?W) (localDay (fixedZone tz) now - int 0)"
    by (rule currentStreakLoop_is_walk)
       (auto simp: descendingDays_sorted set_descendingDays windowActiveDays_le)
  moreover have "spec_currentStreak (descendingDays ?W) (localDay (fixedZone tz) now)
                 = spec_currentStreak ?W (localDay (fixedZone tz) now)"
    by (rule spec_currentStreak_cong) (simp add: set_descendingDays)
  moreover have "calendarStreaks (fixedZone tz) engineSort (setHours0 (fixedZone tz) now) ?act
        = calendarLoops (fixedZone tz) (setHours0 (fixedZone tz) now)
            (uniqueDatesOf (fixedZone tz) (sortDates engineSort (map parseKey (map fst ?act))))"
    using ne by (simp add: calendarStreaks_def Let_def)
  then have "fst (calendarStreaks (fixedZone tz) engineSort (setHours0 (fixedZone tz) now) ?act)
        = currentStreakLoop (fixedZone tz) (localMidnight (fixedZone tz) (localDay
            (fixedZone tz) now))
            (map (\<lambda>d. Valid (localMidnight (fixedZone tz) d)) (descendingDays ?W)) 0 0"
    by (simp only: u) (simp add: calendarLoops_def case_prod_beta setHours0_def)
  ultimately show ?thesis by simp
qed

text \<open>
  So under a fixed offset the longest streak of both Profile pages is at least the current
  streak, for every list of records; it is the longest run of consecutive active days (on
  Profile.tsx when the completion timestamps are well-formed); and on the Profile page
  with the calendar the current streak is the walk back from today when the offset is a
  whole number of days.
\<close>

lemma fixed_offset_longest_ge_current:
  "(\<exists>r. ProfileCalendar_fetchStats (fixedZone tz) engineSort now qs = Some (Inr r)
        \<and> currentStreak (stats r) \<le> longestStreak (stats r))
   \<and> currentStreak (Profile_fetchStats (fixedZone tz) engineSort now qs)
       \<le> longestStreak (Profile_fetchStats (fixedZone tz) engineSort now qs)"
  by (simp add: fetchStats_eq[OF regular_fixedZone] calendarStreaks_le Profile_fetchStats_def
      Let_def case_prod_beta profileStreaks_le)

lemma fixed_offset_longest_is_longest_run:
  "(\<exists>r. ProfileCalendar_fetchStats (fixedZone tz) engineSort now qs = Some (Inr r)
        \<and> longestStreak (stats r)
            = spec_longestStreak (windowActiveDays (fixedZone tz) now qs))
   \<and> ((\<forall>q\<in>set qs. last_solved_at q \<noteq> Some Invalid) \<longrightarrow>
        longestStreak (Profile_fetchStats (fixedZone tz) engineSort now qs)
          = spec_longestStreak (solvedDays (fixedZone tz) qs))"
  by (simp add: fetchStats_eq[OF regular_fixedZone] calendarStreaks_longest Profile_fetchStats_def
      Let_def case_prod_beta profileStreaks_longest)

lemma ProfileCalendar_current_streak_utc:
  "msPerDay dvd tz \<Longrightarrow>
   \<exists>r. ProfileCalendar_fetchStats (fixedZone tz) engineSort now qs = Some (Inr r)
      \<and> currentStreak (stats r)
          = spec_currentStreak (windowActiveDays (fixedZone tz) now qs)
              (localDay (fixedZone tz) now)"
  by (simp add: fetchStats_eq[OF regular_fixedZone] calendar_current_streak_utc)

text \<open>
  On Profile.tsx a malformed completion timestamp between two well-formed ones leaves the
  order of the sorted list to the engine. With an engine that leaves such a list in
  place, records solved yesterday and today with a malformed one between them give
  streaks of 0 and 1, where the two well-formed records alone give 2 and 2.
\<close>

lemma Profile_malformed_date_between:
  "currentStreak (Profile_fetchStats (fixedZone 0) id 1728000005000
      [\<lparr>status = ''Completed'', last_solved_at = Some (Valid 1727913600010), updated_at = None\<rparr>,
       \<lparr>status = ''Completed'', last_solved_at = Some Invalid, updated_at = None\<rparr>,
       \<lparr>status = ''Completed'', last_solved_at = Some (Valid 1728000000010), updated_at = None\<rparr>])
     = 0
   \<and> longestStreak (Profile_fetchStats (fixedZone 0) id 1728000005000
      [\<lparr>status = ''Completed'', last_solved_at = Some (Valid 1727913600010), updated_at = None\<rparr>,
       \<lparr>status = ''Completed'', last_solved_at = Some Invalid, updated_at = None\<rparr>,
       \<lparr>status = ''Completed'', last_solved_at = Some (Valid 1728000000010), updated_at = None\<rparr>])
     = 1
   \<and> currentStreak (Profile_fetchStats (fixedZone 0) id 1728000005000
      [\<lparr>status = ''Completed'', last_solved_at = Some (Valid 1727913600010), updated_at = None\<rparr>,
       \<lparr>status = ''Completed'', last_solved_at = Some (Valid 1728000000010), updated_at = None\<rparr>])
     = 2
   \<and> longestStreak (Profile_fetchStats (fixedZone 0) id 1728000005000
      [\<lparr>status = ''Completed'', last_solved_at = Some (Valid 1727913600010), updated_at = None\<rparr>,
       \<lparr>status = ''Completed'', last_solved_at = Some (Valid 1728000000010), updated_at = None\<rparr>])
     = 2"
  by (simp add: profile_eval sort_eval zone_eval)

end
